theory Spec2Isabelle
  imports Main "HOL-Library.Multiset" "HOL-Library.Char_ord" "HOL-Library.List_Lexorder"
begin

section \<open>Python values and strings\<close>

text \<open>
  The probes hand the engine plain Python dictionaries. A dictionary with string keys is
  an association list in insertion order, read with \<open>dict_get\<close> as \<open>d.get(k, default)\<close>
  reads it. The values are the kinds a probe outcome holds: \<open>None\<close>, booleans, integers,
  strings and nested dictionaries.
\<close>

datatype pyval = PNone | PBool bool | PInt int | PStr string | PDict "(string \<times> pyval) list"

type_synonym pydict = "(string \<times> pyval) list"

definition dict_get :: "pydict \<Rightarrow> string \<Rightarrow> pyval \<Rightarrow> pyval" where
  "dict_get d k dflt = (case map_of d k of None \<Rightarrow> dflt | Some v \<Rightarrow> v)"

text \<open>Truth value testing, as \<open>if v:\<close> and \<open>bool(v)\<close> perform it.\<close>

fun truthy :: "pyval \<Rightarrow> bool" where
  "truthy PNone = False"
| "truthy (PBool b) = b"
| "truthy (PInt i) = (i \<noteq> 0)"
| "truthy (PStr s) = (s \<noteq> [])"
| "truthy (PDict kvs) = (kvs \<noteq> [])"

text \<open>\<open>sub in s\<close> on strings.\<close>

fun str_contains :: "string \<Rightarrow> string \<Rightarrow> bool" where
  "str_contains sub [] = (sub = [])"
| "str_contains sub (c # cs) = (take (length sub) (c # cs) = sub \<or> str_contains sub cs)"

text \<open>
  \<open>s.split(sep)\<close> for a non-empty separator: the pieces between the occurrences of
  \<open>sep\<close>, found left to right without overlap; the result is never empty. (Python
  raises on an empty separator; the source only splits at literals.)
\<close>

function py_split :: "string \<Rightarrow> string \<Rightarrow> string list" where
  "py_split sep [] = [[]]"
| "py_split sep (c # cs) =
     (if sep \<noteq> [] \<and> take (length sep) (c # cs) = sep
      then [] # py_split sep (drop (length sep) (c # cs))
      else (case py_split sep cs of [] \<Rightarrow> [[c]] | p # ps \<Rightarrow> (c # p) # ps))"
  by pat_completeness auto
termination
  by (relation "measure (\<lambda>(sep, s). length s)") (auto simp: neq_Nil_conv)

text \<open>\<open>s.lower()\<close> on the ASCII letters.\<close>

definition lower_char :: "char \<Rightarrow> char" where
  "lower_char c =
     (let n = (of_char c :: nat) in if 65 \<le> n \<and> n \<le> 90 then char_of (n + 32) else c)"

definition py_lower :: "string \<Rightarrow> string" where
  "py_lower s = map lower_char s"

section \<open>Errors\<close>

text \<open>
  The exceptions that leave a function of the engine. \<open>ValidationError\<close> is the one
  pydantic raises when a model is built from a value of the wrong type;
  \<open>ExceptionGroup\<close> is what a nursery raises when tasks of it raised, holding their
  exceptions.
\<close>

datatype error =
    ValueError string
  | ImportError
  | IndexError
  | TypeError
  | ValidationError
  | LibraryError string
  | ExceptionGroup "error list"

section \<open>The email path: response models\<close>

record PlatformInfo =
  platform :: string
  name :: string
  exists :: bool
  email_recovery :: "string option"
  phone_number :: "string option"
  additional_info :: "pydict option"

record EmailCheckResponse =
  success :: bool
  email :: string
  total_checked :: nat
  found_count :: nat
  platforms_found :: "string list"
  detailed_results :: "PlatformInfo list option"
  checked_at :: string

text \<open>
  Field validation of the models: a \<open>str\<close> field takes a string, an \<open>Optional[str]\<close>
  field a string or \<open>None\<close>, an \<open>Optional[Dict[str, Any]]\<close> field a dictionary or
  \<open>None\<close>; any other value makes the constructor raise.
\<close>

fun as_str :: "pyval \<Rightarrow> error + string" where
  "as_str (PStr s) = Inr s"
| "as_str _ = Inl ValidationError"

fun as_opt_str :: "pyval \<Rightarrow> error + string option" where
  "as_opt_str PNone = Inr None"
| "as_opt_str (PStr s) = Inr (Some s)"
| "as_opt_str _ = Inl ValidationError"

fun as_opt_dict :: "pyval \<Rightarrow> error + pydict option" where
  "as_opt_dict PNone = Inr None"
| "as_opt_dict (PDict d) = Inr (Some d)"
| "as_opt_dict _ = Inl ValidationError"

definition make_PlatformInfo ::
  "pyval \<Rightarrow> pyval \<Rightarrow> bool \<Rightarrow> pyval \<Rightarrow> pyval \<Rightarrow> pyval \<Rightarrow> error + PlatformInfo" where
  "make_PlatformInfo p n e er ph ai =
     (case as_str p of Inl err \<Rightarrow> Inl err | Inr p' \<Rightarrow>
     (case as_str n of Inl err \<Rightarrow> Inl err | Inr n' \<Rightarrow>
     (case as_opt_str er of Inl err \<Rightarrow> Inl err | Inr er' \<Rightarrow>
     (case as_opt_str ph of Inl err \<Rightarrow> Inl err | Inr ph' \<Rightarrow>
     (case as_opt_dict ai of Inl err \<Rightarrow> Inl err | Inr ai' \<Rightarrow>
        Inr \<lparr>platform = p', name = n', exists = e, email_recovery = er',
             phone_number = ph', additional_info = ai'\<rparr>)))))"

section \<open>The email path: \<open>format_results\<close>\<close>

text \<open>
  The loop of \<open>format_results\<close> over \<open>raw_results\<close>, with the two lists it appends to
  as accumulators. An outcome whose \<open>exists\<close> is true goes to both lists; any other
  outcome goes to \<open>detailed_results\<close> unless \<open>only_found\<close> is set, and is dropped when
  it is set. The platform name is stored as the validated string: when the validation
  fails the function raises and neither list is seen.
\<close>

definition found_info :: "pydict \<Rightarrow> error + PlatformInfo" where
  "found_info result =
     make_PlatformInfo (dict_get result ''domain'' (PStr ''unknown''))
       (dict_get result ''name'' (PStr '''')) True
       (dict_get result ''emailrecovery'' PNone)
       (dict_get result ''phoneNumber'' PNone)
       (dict_get result ''others'' PNone)"

definition not_found_info :: "pydict \<Rightarrow> error + PlatformInfo" where
  "not_found_info result =
     make_PlatformInfo (dict_get result ''domain'' (PStr ''unknown''))
       (dict_get result ''name'' (PStr '''')) False PNone PNone PNone"

fun format_loop ::
  "bool \<Rightarrow> pydict list \<Rightarrow> string list \<Rightarrow> PlatformInfo list
     \<Rightarrow> error + (string list \<times> PlatformInfo list)" where
  "format_loop only_found [] pf dr = Inr (pf, dr)"
| "format_loop only_found (result # rest) pf dr =
     (if truthy (dict_get result ''exists'' PNone) then
        (case found_info result of
           Inl err \<Rightarrow> Inl err
         | Inr info \<Rightarrow> format_loop only_found rest (pf @ [platform info]) (dr @ [info]))
      else if \<not> only_found then
        (case not_found_info result of
           Inl err \<Rightarrow> Inl err
         | Inr info \<Rightarrow> format_loop only_found rest pf (dr @ [info]))
      else format_loop only_found rest pf dr)"

text \<open>\<open>now\<close> is the value of \<open>datetime.utcnow().isoformat()\<close> at the call.\<close>

definition format_results ::
  "pydict list \<Rightarrow> string \<Rightarrow> bool \<Rightarrow> string \<Rightarrow> error + EmailCheckResponse" where
  "format_results raw_results mail only_found now =
     (case format_loop only_found raw_results [] [] of
        Inl err \<Rightarrow> Inl err
      | Inr (pf, dr) \<Rightarrow>
          Inr \<lparr>success = True, email = mail, total_checked = length raw_results,
               found_count = length pf, platforms_found = pf,
               detailed_results = (if \<not> only_found then Some dr else None),
               checked_at = now\<rparr>)"

section \<open>The email path: probes and the per-unit boundary\<close>

definition DOMAIN_MAP :: "(string \<times> string) list" where
  "DOMAIN_MAP =
     [(''aboutme'', ''about.me''), (''adobe'', ''adobe.com''), (''amazon'', ''amazon.com''),
      (''anydo'', ''any.do''), (''archive'', ''archive.org''),
      (''armurerieauxerre'', ''armurerie-auxerre.com''),
      (''atlassian'', ''atlassian.com''), (''instagram'', ''instagram.com''),
      (''twitter'', ''twitter.com''), (''github'', ''github.com''),
      (''google'', ''google.com''), (''spotify'', ''spotify.com''),
      (''discord'', ''discord.com''), (''tumblr'', ''tumblr.com''),
      (''pinterest'', ''pinterest.com''), (''facebook'', ''facebook.com''),
      (''linkedin'', ''linkedin.com''), (''snapchat'', ''snapchat.com''),
      (''reddit'', ''reddit.com''), (''tiktok'', ''tiktok.com''),
      (''netflix'', ''netflix.com'')]"

text \<open>
  A probe is the object found in a module of the probe library. The engine uses two
  things of it: \<open>str(module)\<close>, here \<open>repr\<close>, and the call
  \<open>await module(email, client, results)\<close>, here \<open>run\<close>: given the identity and the
  shared result list it leaves the list in a new state and either returns or raises an
  instance of \<open>Exception\<close>. The shared client carries no state the engine reads and is
  left out. A request that exceeds the client's timeout raises inside the probe.
\<close>

datatype probe_exn = TimeoutException | OtherException string

record probe =
  repr :: string
  run :: "string \<Rightarrow> pydict list \<Rightarrow> pydict list \<times> probe_exn option"

text \<open>
  The name the handler derives from \<open>str(module)\<close>:
  \<^verbatim>\<open>str(module).split('<function ')[1].split(' ')[0] if '<function' in str(module) else 'unknown'\<close>.
  The test looks for \<open><function\<close>, the split is at \<open><function \<close> with a space; the
  index \<open>[1]\<close> raises when the split gives one piece.
\<close>

definition function_name :: "string \<Rightarrow> error + string" where
  "function_name s =
     (if str_contains ''<function'' s then
        (case py_split ''<function '' s of
           _ # piece # _ \<Rightarrow>
             (case py_split '' '' piece of [] \<Rightarrow> Inl IndexError | tok # _ \<Rightarrow> Inr tok)
         | _ \<Rightarrow> Inl IndexError)
      else Inr ''unknown'')"

definition domain_of :: "string \<Rightarrow> string" where
  "domain_of nm = (case map_of DOMAIN_MAP nm of None \<Rightarrow> ''unknown'' | Some d \<Rightarrow> d)"

definition errored_outcome :: "string \<Rightarrow> string \<Rightarrow> pydict" where
  "errored_outcome nm dmn =
     [(''name'', PStr nm), (''domain'', PStr dmn), (''rateLimit'', PBool False),
      (''error'', PBool True), (''exists'', PBool False), (''emailrecovery'', PNone),
      (''phoneNumber'', PNone), (''others'', PNone)]"

text \<open>
  \<open>launch_module_check\<close>: the probe runs; when it raises, the handler appends the
  errored outcome to the list as the probe left it. An exception raised in the handler
  itself leaves the function.
\<close>

definition launch_module_check ::
  "probe \<Rightarrow> string \<Rightarrow> pydict list \<Rightarrow> error + pydict list" where
  "launch_module_check module mail results =
     (case run module mail results of
        (results', None) \<Rightarrow> Inr results'
      | (results', Some e) \<Rightarrow>
          (case function_name (repr module) of
             Inl err \<Rightarrow> Inl err
           | Inr nm \<Rightarrow> Inr (results' @ [errored_outcome nm (domain_of nm)])))"

section \<open>The email path: catalog, validation, fan-out and sort\<close>

definition exclude_list :: "string list" where
  "exclude_list = [''adobe'', ''mail_ru'', ''odnoklassniki'', ''samsung'']"

text \<open>
  \<open>get_check_functions\<close>: \<open>modules\<close> maps a dotted module name to the module, and a
  module is its \<open>__dict__\<close>. The loop goes through the modules in the order of the
  dictionary.
\<close>

type_synonym pymodule = "(string \<times> probe) list"

fun get_check_functions :: "(string \<times> pymodule) list \<Rightarrow> bool \<Rightarrow> probe list" where
  "get_check_functions [] exclude_password_recovery = []"
| "get_check_functions ((module_name, md) # rest) exclude_password_recovery =
     (if length (py_split ''.'' module_name) > 3 then
        (case map_of md (last (py_split ''.'' module_name)) of
           None \<Rightarrow> get_check_functions rest exclude_password_recovery
         | Some f \<Rightarrow>
             (if exclude_password_recovery then
                (if \<not> list_ex (\<lambda>excluded. str_contains excluded (repr f)) exclude_list
                 then f # get_check_functions rest exclude_password_recovery
                 else get_check_functions rest exclude_password_recovery)
              else f # get_check_functions rest exclude_password_recovery))
      else get_check_functions rest exclude_password_recovery)"

text \<open>
  \<open>is_valid_email\<close>: \<open>re.fullmatch\<close> of
  \<^verbatim>\<open>\b[A-Za-z0-9._%+-]+@[A-Za-z0-9.-]+\.[A-Z|a-z]{2,}\b\<close>.
  The whole string is a local part, \<open>@\<close>, a domain part, a dot and a last part of two
  or more characters; \<open>i\<close> is the position of the \<open>@\<close> and \<open>j\<close> that of the dot. The
  \<open>\b\<close> at the start asks for a word character first, the \<open>\b\<close> at the end for a word
  character last.
\<close>

definition is_alpha :: "char \<Rightarrow> bool" where
  "is_alpha c = (let n = (of_char c :: nat) in (65 \<le> n \<and> n \<le> 90) \<or> (97 \<le> n \<and> n \<le> 122))"

definition is_digit :: "char \<Rightarrow> bool" where
  "is_digit c = (let n = (of_char c :: nat) in 48 \<le> n \<and> n \<le> 57)"

definition local_char :: "char \<Rightarrow> bool" where
  "local_char c = (is_alpha c \<or> is_digit c \<or> c \<in> set ''._%+-'')"

definition domain_char :: "char \<Rightarrow> bool" where
  "domain_char c = (is_alpha c \<or> is_digit c \<or> c \<in> set ''.-'')"

definition tld_char :: "char \<Rightarrow> bool" where
  "tld_char c = (is_alpha c \<or> c = CHR ''|'')"

definition word_char :: "char \<Rightarrow> bool" where
  "word_char c = (is_alpha c \<or> is_digit c \<or> c = CHR ''_'')"

definition email_split_ok :: "string \<Rightarrow> nat \<Rightarrow> nat \<Rightarrow> bool" where
  "email_split_ok s i j =
     (let l = take i s; d = take (j - Suc i) (drop (Suc i) s); t = drop (Suc j) s in
      i < j \<and> j < length s \<and> s ! i = CHR ''@'' \<and> s ! j = CHR ''.'' \<and>
      l \<noteq> [] \<and> list_all local_char l \<and> word_char (s ! 0) \<and>
      d \<noteq> [] \<and> list_all domain_char d \<and>
      2 \<le> length t \<and> list_all tld_char t \<and> word_char (s ! (length s - 1)))"

definition is_valid_email :: "string \<Rightarrow> bool" where
  "is_valid_email mail =
     list_ex (\<lambda>i. list_ex (\<lambda>j. email_split_ok mail i j) [0..<length mail]) [0..<length mail]"

text \<open>
  The nursery. Every probe is started, and the probes finish in an order the program
  does not choose: \<open>sched\<close> picks, at each step, which of the probes still running
  finishes next. Each probe's effect on the shared list is taken at the moment it
  finishes. When an exception leaves \<open>launch_module_check\<close> the nursery cancels
  the probes still running and raises an exception group that holds it.
\<close>

definition pick :: "nat list \<Rightarrow> nat \<Rightarrow> nat" where
  "pick sched n = (case sched of [] \<Rightarrow> 0 | k # _ \<Rightarrow> k mod n)"

definition remove_nth :: "nat \<Rightarrow> 'a list \<Rightarrow> 'a list" where
  "remove_nth i xs = take i xs @ drop (Suc i) xs"

function run_nursery ::
  "nat list \<Rightarrow> probe list \<Rightarrow> string \<Rightarrow> pydict list \<Rightarrow> error + pydict list" where
  "run_nursery sched [] mail results = Inr results"
| "run_nursery sched (w # ws) mail results =
     (case launch_module_check ((w # ws) ! pick sched (length (w # ws))) mail results of
        Inl err \<Rightarrow> Inl (ExceptionGroup [err])
      | Inr results' \<Rightarrow>
          run_nursery (tl sched) (remove_nth (pick sched (length (w # ws))) (w # ws))
            mail results')"
  by pat_completeness auto
termination
proof (relation "measure (\<lambda>(sched, ws, mail, results). length ws)")
  show "wf (measure (\<lambda>(sched, ws, mail, results). length ws))" by simp
next
  fix sched :: "nat list" and w :: probe and ws :: "probe list" and mail :: string
    and results x2 :: "pydict list"
  have "pick sched (Suc (length ws)) < Suc (length ws)"
    by (simp add: pick_def split: list.splits)
  then have "length (remove_nth (pick sched (Suc (length ws))) (w # ws)) < Suc (length ws)"
    by (simp add: remove_nth_def)
  then show "((tl sched, remove_nth (pick sched (length (w # ws))) (w # ws), mail, x2),
              (sched, w # ws, mail, results))
             \<in> measure (\<lambda>(sched, ws, mail, results). length ws)"
    by simp
qed

text \<open>
  \<open>results.sort(key=lambda x: x.get('name', ''))\<close>: a stable sort by the key. The keys
  are compared with \<open><\<close>: strings with strings, numbers with numbers; any other pair
  raises \<open>TypeError\<close>. A list of fewer than two outcomes is compared with nothing.
\<close>

definition name_key :: "pydict \<Rightarrow> pyval" where
  "name_key x = dict_get x ''name'' (PStr '''')"

fun is_str :: "pyval \<Rightarrow> bool" where
  "is_str (PStr s) = True"
| "is_str _ = False"

fun str_of :: "pyval \<Rightarrow> string" where
  "str_of (PStr s) = s"
| "str_of _ = []"

fun is_num :: "pyval \<Rightarrow> bool" where
  "is_num (PInt i) = True"
| "is_num (PBool b) = True"
| "is_num _ = False"

fun num_of :: "pyval \<Rightarrow> int" where
  "num_of (PInt i) = i"
| "num_of (PBool b) = (if b then 1 else 0)"
| "num_of _ = 0"

definition sort_by_name :: "pydict list \<Rightarrow> error + pydict list" where
  "sort_by_name results =
     (if length results \<le> 1 then Inr results
      else if list_all (\<lambda>x. is_str (name_key x)) results
        then Inr (sort_key (\<lambda>x. str_of (name_key x)) results)
      else if list_all (\<lambda>x. is_num (name_key x)) results
        then Inr (sort_key (\<lambda>x. num_of (name_key x)) results)
      else Inl TypeError)"

text \<open>
  \<open>check_email_trio\<close>. \<open>imported\<close> is what \<open>import_holehe_modules()\<close> yields at the
  call: the dictionary of modules, or nothing when the package is missing and the
  function raises \<open>ImportError\<close>. \<open>timeout\<close> is handed to the HTTP client and to
  nothing else. Beside its result the function gives the trace of what it did: the
  validation of the identity, the import of the modules, the start of each probe.
\<close>

datatype event = Validated string | ImportModules | Launched string

definition check_email_trio ::
  "string \<Rightarrow> bool \<Rightarrow> int \<Rightarrow> (string \<times> pymodule) list option \<Rightarrow> nat list
     \<Rightarrow> event list \<times> (error + pydict list)" where
  "check_email_trio mail exclude_password_recovery timeout imported sched =
     (if \<not> is_valid_email mail then
        ([Validated mail], Inl (ValueError (''Invalid email format: '' @ mail)))
      else
        (case imported of
           None \<Rightarrow> ([Validated mail, ImportModules], Inl ImportError)
         | Some modules \<Rightarrow>
             (let websites = get_check_functions modules exclude_password_recovery;
                  trace = [Validated mail, ImportModules] @ map (\<lambda>w. Launched (repr w)) websites
              in case run_nursery sched websites mail [] of
                   Inl err \<Rightarrow> (trace, Inl err)
                 | Inr results \<Rightarrow> (trace, sort_by_name results))))"

section \<open>The username path\<close>

text \<open>
  What \<open>maigret.search\<close> returns: a dictionary from site name to site data. The
  \<open>status\<close> entry of the site data, when present, is an object with the attributes
  \<open>status\<close> and \<open>tags\<close>. The attribute \<open>status\<close> is missing or \<open>None\<close> (\<open>AttrNone\<close>), a
  string, or a member of the library's status enumeration, which is true in a test and
  whose \<open>str\<close> is its value.
\<close>

datatype attr = AttrNone | AttrStr string | AttrEnum string

fun attr_truthy :: "attr \<Rightarrow> bool" where
  "attr_truthy AttrNone = False"
| "attr_truthy (AttrStr s) = (s \<noteq> [])"
| "attr_truthy (AttrEnum v) = True"

fun attr_str :: "attr \<Rightarrow> string" where
  "attr_str AttrNone = ''None''"
| "attr_str (AttrStr s) = s"
| "attr_str (AttrEnum v) = v"

record status_obj =
  status_attr :: attr
  tags_attr :: "string list option"

record site_data =
  raw_status :: "status_obj option"
  raw_url_main :: pyval
  raw_url_user :: pyval
  raw_category :: pyval

record site_entry =
  site :: string
  url_main :: pyval
  url_user :: pyval
  category :: pyval
  status :: attr
  tags :: "string list"

record username_result =
  username :: string
  sites_found :: "site_entry list"
  sites_not_found :: "site_entry list"
  total_sites_checked :: nat

definition status_str_of :: "site_data \<Rightarrow> attr" where
  "status_str_of sd = (case raw_status sd of None \<Rightarrow> AttrNone | Some so \<Rightarrow> status_attr so)"

definition tags_list_of :: "site_data \<Rightarrow> string list" where
  "tags_list_of sd =
     (case raw_status sd of
        None \<Rightarrow> []
      | Some so \<Rightarrow> (case tags_attr so of None \<Rightarrow> [] | Some ts \<Rightarrow> ts))"

definition make_entry :: "string \<Rightarrow> site_data \<Rightarrow> site_entry" where
  "make_entry site_name sd =
     \<lparr>site = site_name, url_main = raw_url_main sd, url_user = raw_url_user sd,
      category = raw_category sd, status = status_str_of sd, tags = tags_list_of sd\<rparr>"

text \<open>The test \<open>status_str and str(status_str).lower() in {"claimed", "found"}\<close>.\<close>

definition is_claimed :: "attr \<Rightarrow> bool" where
  "is_claimed status_str =
     (attr_truthy status_str \<and> py_lower (attr_str status_str) \<in> set [''claimed'', ''found''])"

fun partition_sites ::
  "(string \<times> site_data) list \<Rightarrow> site_entry list \<Rightarrow> site_entry list
     \<Rightarrow> site_entry list \<times> site_entry list" where
  "partition_sites [] sf snf = (sf, snf)"
| "partition_sites ((site_name, sd) # rest) sf snf =
     (if is_claimed (status_str_of sd)
      then partition_sites rest (sf @ [make_entry site_name sd]) snf
      else partition_sites rest sf (snf @ [make_entry site_name sd]))"

text \<open>
  \<open>_load_sites\<close>: \<open>ranked_sites_dict\<close> is the lookup of the site database of the
  Maigret library, loaded from its data file; the function hands it the count, the
  tags and the names (an absent list as the empty list), \<open>disabled=False\<close> and
  \<open>id_type="username"\<close>, and returns what it returns.
\<close>

definition load_sites ::
  "(int \<Rightarrow> string list \<Rightarrow> string list \<Rightarrow> bool \<Rightarrow> string \<Rightarrow> error + 's)
     \<Rightarrow> int \<Rightarrow> string list option \<Rightarrow> string list option \<Rightarrow> error + 's" where
  "load_sites ranked_sites_dict top_sites tgs site_list =
     ranked_sites_dict top_sites
       (case tgs of None \<Rightarrow> [] | Some t \<Rightarrow> t)
       (case site_list of None \<Rightarrow> [] | Some l \<Rightarrow> l)
       False ''username''"

text \<open>
  \<open>maigret_search_username\<close>: \<open>search\<close> is \<open>maigret.search\<close>, given the username, the
  sites, the timeout and the cookie file.
\<close>

definition maigret_search_username ::
  "(int \<Rightarrow> string list \<Rightarrow> string list \<Rightarrow> bool \<Rightarrow> string \<Rightarrow> error + 's)
     \<Rightarrow> (string \<Rightarrow> 's \<Rightarrow> int \<Rightarrow> string option \<Rightarrow> error + (string \<times> site_data) list)
     \<Rightarrow> string \<Rightarrow> int \<Rightarrow> int \<Rightarrow> string list option \<Rightarrow> string list option \<Rightarrow> bool
     \<Rightarrow> error + username_result" where
  "maigret_search_username ranked_sites_dict search uname top_sites timeout tgs site_list
       use_cookies =
     (case load_sites ranked_sites_dict top_sites tgs site_list of
        Inl err \<Rightarrow> Inl err
      | Inr sites \<Rightarrow>
          (case search uname sites timeout (if use_cookies then Some ''cookies.txt'' else None) of
             Inl err \<Rightarrow> Inl err
           | Inr raw_results \<Rightarrow>
               (case partition_sites raw_results [] [] of
                  (sf, snf) \<Rightarrow>
                    Inr \<lparr>username = uname, sites_found = sf, sites_not_found = snf,
                         total_sites_checked = length raw_results\<rparr>)))"

section \<open>Notions used in the statements\<close>

text \<open>
  What the formatter reads of a raw outcome: whether \<open>exists\<close> is true in a test,
  the platform name, and whether the fields have the types the response model takes.
\<close>

definition exists_true :: "pydict \<Rightarrow> bool" where
  "exists_true result = truthy (dict_get result ''exists'' PNone)"

definition domain_str :: "pydict \<Rightarrow> string" where
  "domain_str result = str_of (dict_get result ''domain'' (PStr ''unknown''))"

fun is_opt_str :: "pyval \<Rightarrow> bool" where
  "is_opt_str PNone = True"
| "is_opt_str (PStr s) = True"
| "is_opt_str _ = False"

fun is_opt_dict :: "pyval \<Rightarrow> bool" where
  "is_opt_dict PNone = True"
| "is_opt_dict (PDict d) = True"
| "is_opt_dict _ = False"

definition typed_outcome :: "pydict \<Rightarrow> bool" where
  "typed_outcome result =
     (is_str (dict_get result ''domain'' (PStr ''unknown'')) \<and>
      is_str (dict_get result ''name'' (PStr '''')) \<and>
      is_opt_str (dict_get result ''emailrecovery'' PNone) \<and>
      is_opt_str (dict_get result ''phoneNumber'' PNone) \<and>
      is_opt_dict (dict_get result ''others'' PNone))"

text \<open>
  What the username path reads of a raw site: whether its status counts as found, and
  the entry it becomes.
\<close>

definition site_claimed :: "string \<times> site_data \<Rightarrow> bool" where
  "site_claimed p = is_claimed (status_str_of (snd p))"

definition entry_of :: "string \<times> site_data \<Rightarrow> site_entry" where
  "entry_of p = make_entry (fst p) (snd p)"

text \<open>
  The order the sort puts two keys in: strings by code points, numbers by value.
\<close>

definition key_le :: "pyval \<Rightarrow> pyval \<Rightarrow> bool" where
  "key_le a b = ((is_str a \<and> is_str b \<and> str_of a \<le> str_of b) \<or>
                 (is_num a \<and> is_num b \<and> num_of a \<le> num_of b))"

text \<open>
  What the statements say of a probe: that the handler can derive its name; the errored
  outcome the handler records for it; that for a given identity it raises, whatever the
  list holds, and leaves the list as it was; and that, run for a given identity on a
  given list, it adds one outcome, either raising and leaving the list as it was, or
  returning after it appended one typed outcome.
\<close>

definition named :: "probe \<Rightarrow> bool" where
  "named w = (case function_name (repr w) of Inl err \<Rightarrow> False | Inr nm \<Rightarrow> True)"

definition errored_for :: "probe \<Rightarrow> pydict" where
  "errored_for w =
     (case function_name (repr w) of
        Inl err \<Rightarrow> []
      | Inr nm \<Rightarrow> errored_outcome nm (domain_of nm))"

definition raises_for :: "probe \<Rightarrow> string \<Rightarrow> bool" where
  "raises_for w mail = (\<forall>r. \<exists>e. run w mail r = (r, Some e))"

definition one_outcome :: "probe \<Rightarrow> string \<Rightarrow> pydict list \<Rightarrow> bool" where
  "one_outcome w mail r =
     ((\<exists>e. run w mail r = (r, Some e)) \<or>
      (\<exists>out. typed_outcome out \<and> run w mail r = (r @ [out], None)))"

text \<open>
  The token that follows \<open><function \<close> in a string representation: the second
  piece of the split at \<open><function \<close>, up to its first space.
\<close>

definition token_after :: "string \<Rightarrow> string" where
  "token_after s =
     (case py_split ''<function '' s of
        a # piece # rest \<Rightarrow> (case py_split '' '' piece of [] \<Rightarrow> [] | tok # toks \<Rightarrow> tok)
      | _ \<Rightarrow> [])"

text \<open>
  A probe contributes a fixed outcome for an identity when, whatever the list holds, it
  appends that outcome and returns, or it raises, leaves the list as it was, and the
  outcome is the errored outcome the handler records for it.
\<close>

definition contributes :: "probe \<Rightarrow> string \<Rightarrow> pydict \<Rightarrow> bool" where
  "contributes w mail out =
     ((\<forall>r. run w mail r = (r @ [out], None)) \<or>
      (named w \<and> out = errored_for w \<and> (\<forall>r. \<exists>e. run w mail r = (r, Some e))))"

section \<open>The formatter\<close>

lemma as_str_Inr: "as_str v = Inr s \<Longrightarrow> s = str_of v"
  by (cases v) auto

lemma as_str_typed: "is_str v \<Longrightarrow> as_str v = Inr (str_of v)"
  by (cases v) auto

lemma as_opt_str_typed: "is_opt_str v \<Longrightarrow> \<exists>s. as_opt_str v = Inr s"
  by (cases v) auto

lemma as_opt_dict_typed: "is_opt_dict v \<Longrightarrow> \<exists>s. as_opt_dict v = Inr s"
  by (cases v) auto

lemma make_PlatformInfo_Inr:
  "make_PlatformInfo p n e er ph ai = Inr info \<Longrightarrow>
     platform info = str_of p \<and> name info = str_of n \<and> exists info = e"
  by (auto simp: make_PlatformInfo_def split: sum.splits dest: as_str_Inr)

lemma found_info_Inr:
  "found_info result = Inr info \<Longrightarrow> platform info = domain_str result \<and> exists info"
  by (auto simp: found_info_def domain_str_def dest: make_PlatformInfo_Inr)

lemma not_found_info_Inr:
  "not_found_info result = Inr info \<Longrightarrow> platform info = domain_str result \<and> \<not> exists info"
  by (auto simp: not_found_info_def domain_str_def dest: make_PlatformInfo_Inr)

lemma found_info_typed: "typed_outcome result \<Longrightarrow> \<exists>info. found_info result = Inr info"
proof -
  assume t: "typed_outcome result"
  obtain er where er: "as_opt_str (dict_get result ''emailrecovery'' PNone) = Inr er"
    using t as_opt_str_typed by (auto simp: typed_outcome_def)
  obtain ph where ph: "as_opt_str (dict_get result ''phoneNumber'' PNone) = Inr ph"
    using t as_opt_str_typed by (auto simp: typed_outcome_def)
  obtain ai where ai: "as_opt_dict (dict_get result ''others'' PNone) = Inr ai"
    using t as_opt_dict_typed by (auto simp: typed_outcome_def)
  show ?thesis
    using t er ph ai by (simp add: found_info_def make_PlatformInfo_def typed_outcome_def as_str_typed)
qed

lemma not_found_info_typed: "typed_outcome result \<Longrightarrow> \<exists>info. not_found_info result = Inr info"
  by (simp add: not_found_info_def make_PlatformInfo_def typed_outcome_def as_str_typed)

lemma format_loop_Inr:
  "format_loop only_found raw pf dr = Inr (pf', dr') \<Longrightarrow>
     pf' = pf @ map domain_str (filter exists_true raw) \<and>
     map exists dr' =
       map exists dr @ map exists_true (if only_found then filter exists_true raw else raw) \<and>
     map platform dr' =
       map platform dr @ map domain_str (if only_found then filter exists_true raw else raw)"
proof (induction raw arbitrary: pf dr)
  case Nil
  then show ?case by simp
next
  case (Cons result rest)
  show ?case
  proof (cases "exists_true result")
    case True
    then obtain info where i: "found_info result = Inr info"
      and rec: "format_loop only_found rest (pf @ [platform info]) (dr @ [info]) = Inr (pf', dr')"
      using Cons.prems by (auto simp: exists_true_def split: sum.splits)
    from Cons.IH[OF rec] found_info_Inr[OF i] True show ?thesis by simp
  next
    case False
    show ?thesis
    proof (cases only_found)
      case True
      with False Cons.prems have "format_loop only_found rest pf dr = Inr (pf', dr')"
        by (simp add: exists_true_def)
      from Cons.IH[OF this] False True show ?thesis by simp
    next
      case nf: False
      then obtain info where i: "not_found_info result = Inr info"
        and rec: "format_loop only_found rest pf (dr @ [info]) = Inr (pf', dr')"
        using Cons.prems False by (auto simp: exists_true_def split: sum.splits)
      from Cons.IH[OF rec] not_found_info_Inr[OF i] False nf show ?thesis by simp
    qed
  qed
qed

lemma format_loop_typed:
  "list_all typed_outcome raw \<Longrightarrow> \<exists>res. format_loop only_found raw pf dr = Inr res"
proof (induction raw arbitrary: pf dr)
  case Nil
  then show ?case by simp
next
  case (Cons result rest)
  then have t: "typed_outcome result" and r: "list_all typed_outcome rest" by simp_all
  obtain fi where fi: "found_info result = Inr fi" using found_info_typed[OF t] by blast
  obtain ni where ni: "not_found_info result = Inr ni" using not_found_info_typed[OF t] by blast
  show ?case using Cons.IH[OF r] fi ni by (cases only_found) auto
qed

lemma format_results_Inr:
  assumes "format_results raw mail only_found now = Inr r"
  shows "total_checked r = length raw"
    and "platforms_found r = map domain_str (filter exists_true raw)"
    and "found_count r = length (filter exists_true raw)"
    and "only_found \<Longrightarrow> detailed_results r = None"
    and "\<not> only_found \<Longrightarrow> \<exists>dr. detailed_results r = Some dr \<and>
           map exists dr = map exists_true raw \<and> map platform dr = map domain_str raw"
proof -
  from assms obtain pf dr where
    loop: "format_loop only_found raw [] [] = Inr (pf, dr)" and
    r: "r = \<lparr>success = True, email = mail, total_checked = length raw,
               found_count = length pf, platforms_found = pf,
               detailed_results = (if \<not> only_found then Some dr else None),
               checked_at = now\<rparr>"
    by (auto simp: format_results_def split: sum.splits)
  note fl = format_loop_Inr[OF loop]
  show "total_checked r = length raw" using r by simp
  show "platforms_found r = map domain_str (filter exists_true raw)" using r fl by simp
  show "found_count r = length (filter exists_true raw)" using r fl by simp
  show "only_found \<Longrightarrow> detailed_results r = None" using r by simp
  show "\<not> only_found \<Longrightarrow> \<exists>dr. detailed_results r = Some dr \<and>
           map exists dr = map exists_true raw \<and> map platform dr = map domain_str raw"
    using r fl by simp
qed

lemma format_results_typed:
  "list_all typed_outcome raw \<Longrightarrow> \<exists>r. format_results raw mail only_found now = Inr r"
  using format_loop_typed[of raw only_found "[]" "[]"]
  by (auto simp: format_results_def split: sum.splits)

section \<open>The username partition\<close>

lemma partition_sites_eq:
  "partition_sites raw sf snf =
     (sf @ map entry_of (filter site_claimed raw),
      snf @ map entry_of (filter (\<lambda>p. \<not> site_claimed p) raw))"
  by (induction raw sf snf rule: partition_sites.induct)
     (simp_all add: site_claimed_def entry_of_def)

lemma maigret_search_username_Inr:
  assumes "maigret_search_username rsd search uname top_sites timeout tgs site_list use_cookies = Inr r"
  shows "\<exists>sites raw.
           load_sites rsd top_sites tgs site_list = Inr sites \<and>
           search uname sites timeout (if use_cookies then Some ''cookies.txt'' else None) = Inr raw \<and>
           r = \<lparr>username = uname,
                sites_found = map entry_of (filter site_claimed raw),
                sites_not_found = map entry_of (filter (\<lambda>p. \<not> site_claimed p) raw),
                total_sites_checked = length raw\<rparr>"
  using assms
  by (auto simp: maigret_search_username_def partition_sites_eq split: sum.splits)

lemma maigret_search_username_run:
  assumes "load_sites rsd top_sites tgs site_list = Inr sites"
    and "search uname sites timeout (if use_cookies then Some ''cookies.txt'' else None) = Inr raw"
  shows "maigret_search_username rsd search uname top_sites timeout tgs site_list use_cookies =
           Inr \<lparr>username = uname,
                sites_found = map entry_of (filter site_claimed raw),
                sites_not_found = map entry_of (filter (\<lambda>p. \<not> site_claimed p) raw),
                total_sites_checked = length raw\<rparr>"
  using assms by (simp add: maigret_search_username_def partition_sites_eq)

lemma length_filter_partition:
  "length (filter P xs) + length (filter (\<lambda>x. \<not> P x) xs) = length xs"
  by (induction xs) auto

lemma is_claimed_iff:
  "is_claimed st \<longleftrightarrow> py_lower (attr_str st) \<in> {''claimed'', ''found''}"
proof (cases st)
  case AttrNone
  have "py_lower ''None'' = ''none''" by code_simp
  with AttrNone show ?thesis by (simp add: is_claimed_def)
next
  case (AttrStr s)
  show ?thesis
  proof (cases "s = []")
    case True
    with AttrStr show ?thesis by (simp add: is_claimed_def py_lower_def)
  next
    case False
    with AttrStr show ?thesis by (simp add: is_claimed_def)
  qed
next
  case (AttrEnum v)
  then show ?thesis by (simp add: is_claimed_def)
qed

section \<open>The sort\<close>

lemma sorted_key_le_str:
  assumes "list_all (\<lambda>x. is_str (name_key x)) r" and "sorted (map (\<lambda>x. str_of (name_key x)) r)"
  shows "sorted_wrt key_le (map name_key r)"
  using assms by (induction r) (auto simp: key_le_def list_all_iff)

lemma sorted_key_le_num:
  assumes "list_all (\<lambda>x. is_num (name_key x)) r" and "sorted (map (\<lambda>x. num_of (name_key x)) r)"
  shows "sorted_wrt key_le (map name_key r)"
  using assms by (induction r) (auto simp: key_le_def list_all_iff)

lemma sort_by_name_Inr:
  assumes "sort_by_name xs = Inr r"
  shows "mset r = mset xs" and "sorted_wrt key_le (map name_key r)"
proof -
  show "mset r = mset xs"
    using assms by (auto simp: sort_by_name_def split: if_splits)
  show "sorted_wrt key_le (map name_key r)"
  proof (cases "length xs \<le> 1")
    case True
    then have "r = xs" using assms by (simp add: sort_by_name_def)
    moreover from True have "xs = [] \<or> (\<exists>x. xs = [x])" by (cases xs) auto
    ultimately show ?thesis by auto
  next
    case False
    show ?thesis
    proof (cases "list_all (\<lambda>x. is_str (name_key x)) xs")
      case True
      with False assms have r: "r = sort_key (\<lambda>x. str_of (name_key x)) xs"
        by (simp add: sort_by_name_def)
      have "list_all (\<lambda>x. is_str (name_key x)) r" using True r by (simp add: list_all_iff)
      moreover have "sorted (map (\<lambda>x. str_of (name_key x)) r)" using r by simp
      ultimately show ?thesis by (rule sorted_key_le_str)
    next
      case nstr: False
      with False assms have n: "list_all (\<lambda>x. is_num (name_key x)) xs"
        and r: "r = sort_key (\<lambda>x. num_of (name_key x)) xs"
        by (auto simp: sort_by_name_def split: if_splits)
      have "list_all (\<lambda>x. is_num (name_key x)) r" using n r by (simp add: list_all_iff)
      moreover have "sorted (map (\<lambda>x. num_of (name_key x)) r)" using r by simp
      ultimately show ?thesis by (rule sorted_key_le_num)
    qed
  qed
qed

lemma str_of_inj: "is_str a \<Longrightarrow> is_str b \<Longrightarrow> str_of a = str_of b \<Longrightarrow> a = b"
  by (cases a; cases b) auto

lemma sort_key_perm_distinct:
  fixes f :: "'a \<Rightarrow> 'k::linorder"
  assumes "mset xs = mset ys" and "inj_on f (set xs)"
  shows "sort_key f ys = sort_key f xs"
proof (rule sort_key_inj_key_eq)
  show "mset ys = mset (sort_key f xs)" using assms(1) by simp
  have "set ys = set xs" using assms(1) by (metis set_mset_mset)
  then show "inj_on f (set ys)" using assms(2) by simp
  show "sorted (map f (sort_key f xs))" by simp
qed

lemma sort_by_name_str:
  assumes "list_all (\<lambda>x. is_str (name_key x)) xs"
  shows "\<exists>r. sort_by_name xs = Inr r"
  using assms by (simp add: sort_by_name_def)

lemma sort_by_name_perm:
  assumes perm: "mset xs = mset ys"
    and strs: "list_all (\<lambda>x. is_str (name_key x)) xs"
    and dist: "distinct (map name_key xs)"
  shows "sort_by_name ys = sort_by_name xs"
proof -
  have len: "length ys = length xs" using perm by (metis size_mset)
  have sets: "set ys = set xs" using perm by (metis set_mset_mset)
  have inj: "inj_on name_key (set xs)" using dist by (simp add: distinct_map)
  show ?thesis
  proof (cases "length xs \<le> 1")
    case True
    then have "xs = [] \<or> (\<exists>x. xs = [x])" by (cases xs) auto
    then have "ys = xs" using perm by auto
    then show ?thesis by simp
  next
    case False
    have "inj_on (\<lambda>x. str_of (name_key x)) (set xs)"
    proof (rule inj_onI)
      fix x y assume x: "x \<in> set xs" and y: "y \<in> set xs"
        and e: "str_of (name_key x) = str_of (name_key y)"
      have "is_str (name_key x)" "is_str (name_key y)"
        using strs x y by (simp_all add: list_all_iff)
      then have "name_key x = name_key y" using e by (rule str_of_inj)
      then show "x = y" using inj x y by (simp add: inj_on_def)
    qed
    from sort_key_perm_distinct[OF perm this] strs False len sets
    show ?thesis by (simp add: sort_by_name_def list_all_iff)
  qed
qed

section \<open>The per-unit boundary and the nursery\<close>

lemma launch_raises:
  assumes "named w" and "run w m r = (r', Some e)"
  shows "launch_module_check w m r = Inr (r' @ [errored_for w])"
  using assms by (auto simp: launch_module_check_def named_def errored_for_def split: sum.splits)

lemma launch_returns:
  assumes "run w m r = (r', None)"
  shows "launch_module_check w m r = Inr r'"
  using assms by (simp add: launch_module_check_def)

lemma launch_unnamed:
  assumes "\<not> named w" and "run w m r = (r', Some e)"
  shows "launch_module_check w m r = Inl IndexError"
  using assms
  by (auto simp: launch_module_check_def named_def function_name_def split: sum.splits if_splits list.splits)

lemma name_key_errored: "name_key (errored_outcome nm dmn) = PStr nm"
  by (simp add: name_key_def errored_outcome_def dict_get_def)

lemma errored_for_str: "named w \<Longrightarrow> is_str (name_key (errored_for w))"
  by (auto simp: named_def errored_for_def name_key_errored split: sum.splits)

lemma errored_for_fields:
  assumes "function_name (repr w) = Inr nm"
  shows "errored_for w = errored_outcome nm (domain_of nm)"
    and "dict_get (errored_for w) ''error'' PNone = PBool True"
    and "dict_get (errored_for w) ''exists'' PNone = PBool False"
    and "dict_get (errored_for w) ''name'' PNone = PStr nm"
    and "dict_get (errored_for w) ''domain'' PNone = PStr (domain_of nm)"
  using assms by (simp_all add: errored_for_def errored_outcome_def dict_get_def)

lemma errored_for_typed: "named w \<Longrightarrow> typed_outcome (errored_for w) \<and> \<not> exists_true (errored_for w)"
  by (auto simp: named_def errored_for_def typed_outcome_def exists_true_def errored_outcome_def
        dict_get_def split: sum.splits)

lemma mset_remove_nth:
  "i < length xs \<Longrightarrow> mset xs = add_mset (xs ! i) (mset (remove_nth i xs))"
proof -
  assume "i < length xs"
  then have "xs = take i xs @ xs ! i # drop (Suc i) xs" by (rule id_take_nth_drop)
  then have "mset xs = mset (take i xs @ xs ! i # drop (Suc i) xs)" by simp
  then show ?thesis by (simp add: remove_nth_def)
qed

lemma set_remove_nth: "set (remove_nth i xs) \<subseteq> set xs"
  by (auto simp: remove_nth_def dest: in_set_takeD in_set_dropD)

lemma pick_less: "0 < n \<Longrightarrow> pick sched n < n"
  by (simp add: pick_def split: list.splits)

lemma length_remove_nth: "i < length xs \<Longrightarrow> Suc (length (remove_nth i xs)) = length xs"
  by (auto simp: remove_nth_def)

lemma launch_named:
  assumes "named w"
  shows "\<exists>res. launch_module_check w mail results = Inr res"
proof (cases "run w mail results")
  case (Pair r' x)
  show ?thesis
  proof (cases x)
    case None
    with Pair launch_returns[of w mail results r'] show ?thesis by simp
  next
    case (Some e)
    with Pair launch_raises[OF assms, of mail results r' e] show ?thesis by simp
  qed
qed

lemma run_nursery_named:
  assumes "\<forall>w \<in> set ws. named w"
  shows "\<exists>res. run_nursery sched ws mail results = Inr res"
  using assms
proof (induction sched ws mail results rule: run_nursery.induct)
  case (1 sched mail results)
  then show ?case by simp
next
  case (2 sched w ws mail results)
  let ?xs = "w # ws"
  let ?i = "pick sched (length ?xs)"
  have i: "?i < length ?xs" by (rule pick_less) simp
  then have "?xs ! ?i \<in> set ?xs" by (rule nth_mem)
  then have "named (?xs ! ?i)" using "2.prems" by blast
  then obtain r' where step: "launch_module_check (?xs ! ?i) mail results = Inr r'"
    using launch_named by blast
  have "\<forall>w \<in> set (remove_nth ?i ?xs). named w"
    using "2.prems" set_remove_nth[of ?i ?xs] by blast
  from "2.IH"[OF step this] step show ?case by simp
qed

lemma launch_one_outcome:
  assumes n: "named w" and o: "one_outcome w mail results"
  shows "\<exists>out. launch_module_check w mail results = Inr (results @ [out]) \<and>
           typed_outcome out \<and> (raises_for w mail \<longrightarrow> out = errored_for w)"
proof (cases "\<exists>e. run w mail results = (results, Some e)")
  case True
  then obtain e where "run w mail results = (results, Some e)" by blast
  from launch_raises[OF n this] errored_for_typed[OF n] show ?thesis by blast
next
  case False
  with o obtain out where t: "typed_outcome out"
    and r: "run w mail results = (results @ [out], None)"
    unfolding one_outcome_def by blast
  have "\<not> raises_for w mail"
  proof
    assume "raises_for w mail"
    then obtain e where "run w mail results = (results, Some e)"
      unfolding raises_for_def by blast
    with False show False by blast
  qed
  with launch_returns[OF r] t show ?thesis by blast
qed

lemma run_nursery_one_outcome:
  assumes "\<forall>w \<in> set ws. named w \<and> (\<forall>r. one_outcome w mail r)"
  shows "\<exists>res. run_nursery sched ws mail results = Inr (results @ res) \<and>
           length res = length ws \<and>
           list_all typed_outcome res \<and>
           mset (map errored_for (filter (\<lambda>w. raises_for w mail) ws)) \<subseteq># mset res"
  using assms
proof (induction sched ws mail results rule: run_nursery.induct)
  case (1 sched mail results)
  then show ?case by simp
next
  case (2 sched w ws mail results)
  let ?P = "\<lambda>w. raises_for w mail"
  let ?xs = "w # ws"
  let ?i = "pick sched (length ?xs)"
  let ?t = "?xs ! ?i"
  let ?rest = "remove_nth ?i ?xs"
  have i: "?i < length ?xs" by (rule pick_less) simp
  then have t_in: "?t \<in> set ?xs" by (rule nth_mem)
  have t_ok: "named ?t" "one_outcome ?t mail results"
    using "2.prems" t_in by blast+
  have rest_ok: "\<forall>w \<in> set ?rest. named w \<and> (\<forall>r. one_outcome w mail r)"
    using "2.prems" set_remove_nth[of ?i ?xs] by blast
  have ms: "mset ?xs = add_mset ?t (mset ?rest)" using i by (rule mset_remove_nth)
  have len: "Suc (length ?rest) = length ?xs" using i by (rule length_remove_nth)
  from launch_one_outcome[OF t_ok] obtain out where
    step: "launch_module_check ?t mail results = Inr (results @ [out])"
    and out_typed: "typed_outcome out"
    and out_err: "?P ?t \<longrightarrow> out = errored_for ?t"
    by blast
  from "2.IH"[OF step rest_ok] obtain res where
    rec: "run_nursery (tl sched) ?rest mail (results @ [out]) = Inr ((results @ [out]) @ res)"
    and rlen: "length res = length ?rest"
    and rtyped: "list_all typed_outcome res"
    and rsub: "mset (map errored_for (filter ?P ?rest)) \<subseteq># mset res"
    by blast
  have run: "run_nursery sched ?xs mail results = Inr (results @ (out # res))"
    using step rec by simp
  have flt: "mset (filter ?P ?xs) =
             (if ?P ?t then add_mset ?t (mset (filter ?P ?rest))
              else mset (filter ?P ?rest))"
    using ms by (metis filter_mset_add_mset mset_filter)
  have sub: "mset (map errored_for (filter ?P ?xs)) \<subseteq># mset (out # res)"
  proof (cases "?P ?t")
    case True
    have "out = errored_for ?t" using out_err True by blast
    then have "mset (map errored_for (filter ?P ?xs)) =
          add_mset out (mset (map errored_for (filter ?P ?rest)))"
      using flt True by (metis image_mset_add_mset mset_map)
    then show ?thesis using rsub by simp
  next
    case False
    have "mset (map errored_for (filter ?P ?xs)) = mset (map errored_for (filter ?P ?rest))"
      using flt False by (metis mset_map)
    then have "mset (map errored_for (filter ?P ?xs)) \<subseteq># mset res"
      using rsub by (simp only:)
    also have "mset res \<subseteq># mset (out # res)" by simp
    finally show ?thesis .
  qed
  show ?case
    using run rlen len out_typed rtyped sub by (intro exI[of _ "out # res"]) simp
qed

section \<open>The derived name and the domain map\<close>

lemma py_split_nonempty: "py_split sep s \<noteq> []"
  by (induction sep s rule: py_split.induct) (auto split: list.splits)

lemma str_contains_split:
  "sep \<noteq> [] \<Longrightarrow> str_contains sep s \<Longrightarrow> \<exists>a b rest. py_split sep s = a # b # rest"
proof (induction sep s rule: py_split.induct)
  case (1 sep)
  then show ?case by simp
next
  case (2 sep c cs)
  show ?case
  proof (cases "take (length sep) (c # cs) = sep")
    case True
    obtain p ps where "py_split sep (drop (length sep) (c # cs)) = p # ps"
      using py_split_nonempty[of sep "drop (length sep) (c # cs)"] by (cases "py_split sep (drop (length sep) (c # cs))") auto
    with True "2.prems" show ?thesis by simp
  next
    case False
    with "2.prems" have "str_contains sep cs" by simp
    with "2.IH"(2) False "2.prems"(1) obtain a b rest where "py_split sep cs = a # b # rest"
      by blast
    with False show ?thesis by simp
  qed
qed

lemma take_snoc_prefix:
  assumes "take (length (sub @ [x])) ys = sub @ [x]"
  shows "take (length sub) ys = sub"
proof -
  have "take (length sub) ys = take (length sub) (take (length (sub @ [x])) ys)"
    by (simp add: min_def)
  also have "\<dots> = take (length sub) (sub @ [x])" using assms by (simp only:)
  also have "\<dots> = sub" by simp
  finally show ?thesis .
qed

lemma str_contains_butlast:
  "str_contains (sub @ [x]) s \<Longrightarrow> str_contains sub s"
proof (induction s)
  case Nil
  then show ?case by simp
next
  case (Cons c cs)
  show ?case
  proof (cases "take (length (sub @ [x])) (c # cs) = sub @ [x]")
    case True
    then have "take (length sub) (c # cs) = sub" by (rule take_snoc_prefix)
    then show ?thesis by simp
  next
    case False
    with Cons show ?thesis by auto
  qed
qed

lemma function_name_unknown:
  "\<not> str_contains ''<function'' s \<Longrightarrow> function_name s = Inr ''unknown''"
  by (simp add: function_name_def)

lemma function_name_token:
  assumes "str_contains ''<function '' s"
  shows "\<exists>a piece rest tok toks.
           py_split ''<function '' s = a # piece # rest \<and>
           py_split '' '' piece = tok # toks \<and> function_name s = Inr tok"
proof -
  have c: "str_contains ''<function'' s"
    using assms str_contains_butlast[of "''<function''" "CHR '' ''" s] by simp
  obtain a piece rest where sp: "py_split ''<function '' s = a # piece # rest"
    using str_contains_split[OF _ assms] by auto
  obtain tok toks where tk: "py_split '' '' piece = tok # toks"
    using py_split_nonempty[of "'' ''" piece] by (cases "py_split '' '' piece") auto
  show ?thesis using c sp tk by (simp add: function_name_def)
qed


lemma py_split_absent:
  "sep \<noteq> [] \<Longrightarrow> \<not> str_contains sep s \<Longrightarrow> py_split sep s = [s]"
  by (induction sep s rule: py_split.induct) auto

lemma py_split_prefix:
  assumes "sep \<noteq> []"
  shows "py_split sep (sep @ s) = [] # py_split sep s"
proof -
  from assms obtain c cs where sep: "sep = c # cs" by (cases sep) auto
  have "py_split sep (c # (cs @ s)) =
          [] # py_split sep (drop (length sep) (c # (cs @ s)))"
    using assms sep by (subst py_split.simps) simp
  then show ?thesis using sep by simp
qed

lemma py_split_first_token:
  "c \<notin> set nm \<Longrightarrow> py_split [c] (nm @ c # u) = nm # py_split [c] u"
  by (induction nm) auto

lemma str_contains_prefix: "str_contains sub (sub @ s)"
proof (cases "sub @ s")
  case Nil
  then show ?thesis by simp
next
  case (Cons a list)
  have "take (length sub) (sub @ s) = sub" by simp
  then have "take (length sub) (a # list) = sub" using Cons by (simp only:)
  then show ?thesis using Cons by (simp only: str_contains.simps) simp
qed

lemma function_name_no_gap:
  assumes "str_contains ''<function'' s \<longrightarrow> str_contains ''<function '' s"
  shows "function_name s =
           Inr (if str_contains ''<function '' s then token_after s else ''unknown'')"
proof (cases "str_contains ''<function '' s")
  case True
  from function_name_token[OF True] obtain a piece rest tok toks where
    "py_split ''<function '' s = a # piece # rest" "py_split '' '' piece = tok # toks"
    "function_name s = Inr tok"
    by blast
  then show ?thesis using True by (simp add: token_after_def)
next
  case False
  with assms have "\<not> str_contains ''<function'' s" by blast
  then show ?thesis using False by (simp add: function_name_unknown)
qed

lemma function_name_of_function:
  assumes sp: "CHR '' '' \<notin> set nm"
    and once: "\<not> str_contains ''<function '' (nm @ '' at 0x'' @ addr @ ''>'')"
  shows "function_name (''<function '' @ nm @ '' at 0x'' @ addr @ ''>'') = Inr nm"
proof -
  let ?t = "nm @ '' at 0x'' @ addr @ ''>''"
  have c: "str_contains ''<function'' (''<function '' @ ?t)"
    using str_contains_prefix[of "''<function''" "'' '' @ ?t"] by simp
  have "py_split ''<function '' (''<function '' @ ?t) = [] # py_split ''<function '' ?t"
    by (rule py_split_prefix) simp
  also have "py_split ''<function '' ?t = [?t]"
    using once by (intro py_split_absent) simp_all
  finally have s1: "py_split ''<function '' (''<function '' @ ?t) = [[], ?t]" .
  have "py_split '' '' (nm @ CHR '' '' # (''at 0x'' @ addr @ ''>'')) =
          nm # py_split '' '' (''at 0x'' @ addr @ ''>'')"
    using sp by (rule py_split_first_token)
  then have s2: "py_split '' '' ?t = nm # py_split '' '' (''at 0x'' @ addr @ ''>'')" by simp
  show ?thesis
    unfolding function_name_def using c s1 s2 by (simp only: if_True list.case sum.case)
qed

lemma domain_map_size: "length DOMAIN_MAP = 21 \<and> distinct (map fst DOMAIN_MAP)"
  by (simp add: DOMAIN_MAP_def)

lemma domain_of_unmapped: "nm \<notin> set (map fst DOMAIN_MAP) \<Longrightarrow> domain_of nm = ''unknown''"
  by (simp add: domain_of_def map_of_eq_None_iff[THEN iffD2])

lemma domain_of_mapped: "(nm, d) \<in> set DOMAIN_MAP \<Longrightarrow> domain_of nm = d"
proof -
  assume "(nm, d) \<in> set DOMAIN_MAP"
  moreover have "distinct (map fst DOMAIN_MAP)" by (simp add: DOMAIN_MAP_def)
  ultimately have "map_of DOMAIN_MAP nm = Some d" by simp
  then show ?thesis by (simp add: domain_of_def)
qed

lemma entry_of_site: "site (entry_of p) = fst p"
  by (simp add: entry_of_def make_entry_def)

lemma check_email_trio_sorted:
  assumes "snd (check_email_trio mail exclude_password_recovery timeout imported sched) = Inr r"
  shows "\<exists>results. sort_by_name results = Inr r"
  using assms
  by (cases imported)
     (auto simp: check_email_trio_def Let_def split: if_splits sum.splits)

lemma typed_outcome_name: "typed_outcome x \<Longrightarrow> is_str (name_key x)"
  by (simp add: typed_outcome_def name_key_def)

lemma check_email_trio_named:
  assumes v: "is_valid_email mail"
    and n: "\<forall>w \<in> set (get_check_functions modules exclude_password_recovery). named w"
  shows "\<exists>res. run_nursery sched (get_check_functions modules exclude_password_recovery) mail [] = Inr res \<and>
           snd (check_email_trio mail exclude_password_recovery timeout (Some modules) sched) =
             sort_by_name res"
proof -
  from run_nursery_named[OF n, of sched mail "[]"] obtain res where
    "run_nursery sched (get_check_functions modules exclude_password_recovery) mail [] = Inr res"
    by blast
  with v show ?thesis by (simp add: check_email_trio_def Let_def)
qed

lemma check_email_trio_one_outcome:
  assumes v: "is_valid_email mail"
    and b: "\<forall>w \<in> set (get_check_functions modules exclude_password_recovery).
              named w \<and> (\<forall>r. one_outcome w mail r)"
  shows "\<exists>res resp.
           snd (check_email_trio mail exclude_password_recovery timeout (Some modules) sched) = Inr res \<and>
           length res = length (get_check_functions modules exclude_password_recovery) \<and>
           mset (map errored_for
                  (filter (\<lambda>w. raises_for w mail)
                     (get_check_functions modules exclude_password_recovery)))
             \<subseteq># mset res \<and>
           format_results res mail only_found now = Inr resp \<and>
           total_checked resp = length (get_check_functions modules exclude_password_recovery)"
proof -
  let ?ws = "get_check_functions modules exclude_password_recovery"
  from run_nursery_one_outcome[OF b, of sched "[]"] obtain res where
    run: "run_nursery sched ?ws mail [] = Inr res" and
    len: "length res = length ?ws" and
    typed: "list_all typed_outcome res" and
    sub: "mset (map errored_for (filter (\<lambda>w. raises_for w mail) ?ws)) \<subseteq># mset res"
    by auto
  have str: "list_all (\<lambda>x. is_str (name_key x)) res"
    using typed typed_outcome_name by (auto simp: list_all_iff)
  from sort_by_name_str[OF str] obtain r where srt: "sort_by_name res = Inr r" by blast
  have ms: "mset r = mset res" by (rule sort_by_name_Inr(1)[OF srt])
  then have rlen: "length r = length res" by (metis size_mset)
  have "set r = set res" using ms by (metis set_mset_mset)
  then have rtyped: "list_all typed_outcome r" using typed by (simp add: list_all_iff)
  from format_results_typed[OF rtyped] obtain resp where
    f: "format_results r mail only_found now = Inr resp" by blast
  have tc: "total_checked resp = length ?ws"
    using format_results_Inr(1)[OF f] rlen len by simp
  have c: "snd (check_email_trio mail exclude_password_recovery timeout (Some modules) sched) = Inr r"
    using v run srt by (simp add: check_email_trio_def Let_def)
  show ?thesis using c rlen len sub ms f tc by auto
qed

lemma check_email_trio_all_raise:
  assumes v: "is_valid_email mail"
    and b: "\<forall>w \<in> set (get_check_functions modules exclude_password_recovery).
              named w \<and> raises_for w mail"
  shows "\<exists>res resp.
           snd (check_email_trio mail exclude_password_recovery timeout (Some modules) sched) = Inr res \<and>
           mset res = mset (map errored_for (get_check_functions modules exclude_password_recovery)) \<and>
           format_results res mail only_found now = Inr resp \<and>
           total_checked resp = length (get_check_functions modules exclude_password_recovery) \<and>
           found_count resp = 0 \<and> platforms_found resp = []"
proof -
  let ?ws = "get_check_functions modules exclude_password_recovery"
  have b': "\<forall>w \<in> set ?ws. named w \<and> (\<forall>r. one_outcome w mail r)"
    using b by (auto simp: raises_for_def one_outcome_def)
  from check_email_trio_one_outcome[OF v b', of timeout sched only_found now] obtain res resp where
    run: "snd (check_email_trio mail exclude_password_recovery timeout (Some modules) sched) = Inr res"
    and len: "length res = length ?ws"
    and sub: "mset (map errored_for (filter (\<lambda>w. raises_for w mail) ?ws)) \<subseteq># mset res"
    and f: "format_results res mail only_found now = Inr resp"
    and tc: "total_checked resp = length ?ws"
    by blast
  have all: "filter (\<lambda>w. raises_for w mail) ?ws = ?ws" using b by (simp add: filter_id_conv)
  have sub': "mset (map errored_for ?ws) \<subseteq># mset res" using sub all by simp
  obtain c where c: "mset res = mset (map errored_for ?ws) + c"
    using sub' by (auto simp: mset_subset_eq_exists_conv)
  then have "size (mset res) = size (mset (map errored_for ?ws)) + size c" by simp
  then have "size c = 0" using len by simp
  then have ms: "mset res = mset (map errored_for ?ws)" using c by simp
  then have st: "set res = errored_for ` set ?ws" by (metis set_mset_mset set_map)
  have nex: "filter exists_true res = []"
    using st b errored_for_typed by (auto simp: filter_empty_conv)
  have "found_count resp = 0" using format_results_Inr(3)[OF f] nex by simp
  moreover have "platforms_found resp = []" using format_results_Inr(2)[OF f] nex by simp
  ultimately show ?thesis using run ms f tc by blast
qed

lemma launch_contributes:
  assumes "contributes w mail out"
  shows "launch_module_check w mail results = Inr (results @ [out])"
proof -
  from assms consider
    (ret) "\<forall>r. run w mail r = (r @ [out], None)" |
    (exn) "named w" "out = errored_for w" "\<forall>r. \<exists>e. run w mail r = (r, Some e)"
    unfolding contributes_def by blast
  then show ?thesis
  proof cases
    case ret
    then have "run w mail results = (results @ [out], None)" by blast
    then show ?thesis by (rule launch_returns)
  next
    case exn
    then obtain e where "run w mail results = (results, Some e)" by blast
    from launch_raises[OF exn(1) this] exn(2) show ?thesis by simp
  qed
qed

lemma run_nursery_contributes:
  assumes "\<forall>w \<in> set ws. contributes w mail (out w)"
  shows "\<exists>res. run_nursery sched ws mail results = Inr (results @ res) \<and>
           mset res = mset (map out ws)"
  using assms
proof (induction sched ws mail results rule: run_nursery.induct)
  case (1 sched mail results)
  then show ?case by simp
next
  case (2 sched w ws mail results)
  let ?xs = "w # ws"
  let ?i = "pick sched (length ?xs)"
  let ?t = "?xs ! ?i"
  let ?rest = "remove_nth ?i ?xs"
  have i: "?i < length ?xs" by (rule pick_less) simp
  then have t_in: "?t \<in> set ?xs" by (rule nth_mem)
  have t_ok: "contributes ?t mail (out ?t)" using "2.prems" t_in by blast
  have rest_ok: "\<forall>w \<in> set ?rest. contributes w mail (out w)"
    using "2.prems" set_remove_nth[of ?i ?xs] by blast
  have ms: "mset ?xs = add_mset ?t (mset ?rest)" using i by (rule mset_remove_nth)
  have step: "launch_module_check ?t mail results = Inr (results @ [out ?t])"
    using t_ok by (rule launch_contributes)
  from "2.IH"[OF step rest_ok] obtain res where
    rec: "run_nursery (tl sched) ?rest mail (results @ [out ?t]) = Inr ((results @ [out ?t]) @ res)"
    and rms: "mset res = mset (map out ?rest)"
    by blast
  have run: "run_nursery sched ?xs mail results = Inr (results @ (out ?t # res))"
    using step rec by simp
  have "mset (map out ?xs) = add_mset (out ?t) (mset (map out ?rest))"
    using ms by (metis image_mset_add_mset mset_map)
  then have "mset (out ?t # res) = mset (map out ?xs)" using rms by simp
  with run show ?case by blast
qed

lemma check_email_trio_schedule_free:
  assumes v: "is_valid_email mail"
    and c: "\<forall>w \<in> set (get_check_functions modules exclude_password_recovery).
              contributes w mail (out w)"
    and s: "list_all (\<lambda>w. is_str (name_key (out w)))
              (get_check_functions modules exclude_password_recovery)"
    and d: "distinct (map (\<lambda>w. name_key (out w))
              (get_check_functions modules exclude_password_recovery))"
  shows "check_email_trio mail exclude_password_recovery timeout (Some modules) sched_a =
         check_email_trio mail exclude_password_recovery timeout (Some modules) sched_b"
proof -
  let ?ws = "get_check_functions modules exclude_password_recovery"
  from run_nursery_contributes[OF c, of sched_a "[]"] obtain res1 where
    r1: "run_nursery sched_a ?ws mail [] = Inr res1" and m1: "mset res1 = mset (map out ?ws)"
    by auto
  from run_nursery_contributes[OF c, of sched_b "[]"] obtain res2 where
    r2: "run_nursery sched_b ?ws mail [] = Inr res2" and m2: "mset res2 = mset (map out ?ws)"
    by auto
  have perm: "mset res1 = mset res2" using m1 m2 by simp
  have set1: "set res1 = out ` set ?ws" using m1 by (metis set_mset_mset set_map)
  have strs: "list_all (\<lambda>x. is_str (name_key x)) res1"
    using s set1 by (auto simp: list_all_iff)
  have "mset (map name_key res1) = mset (map name_key (map out ?ws))"
    using m1 by (metis mset_map)
  moreover have "distinct (map name_key (map out ?ws))" using d by (simp add: comp_def)
  ultimately have dist: "distinct (map name_key res1)"
    by (metis mset_eq_imp_distinct_iff)
  have "sort_by_name res2 = sort_by_name res1"
    using perm strs dist by (rule sort_by_name_perm)
  then show ?thesis using v r1 r2 by (simp add: check_email_trio_def Let_def)
qed

section \<open>The claims\<close>

text \<open>
  C1, as the code has it. Email path: \<open>total_checked\<close> is the number of raw outcomes
  whatever the mode. When \<open>only_found\<close> is not set, the detailed list holds one entry
  for each raw outcome, in order, flagged by the truth of its \<open>exists\<close> field, so
  \<open>total_checked\<close> is the number of entries found plus the number not found, and an
  errored outcome is among those not found. When \<open>only_found\<close> is set, the outcomes not
  found are in no list and \<open>total_checked\<close> still counts them. Username path:
  \<open>total_sites_checked\<close> is the number of raw sites, each site is in exactly one of
  the two lists, and a site without a status is not found.
\<close>

theorem total_checked_counts_every_outcome:
  "(format_results raw mail only_found now = Inr r \<longrightarrow>
      total_checked r = length raw \<and>
      found_count r = length (filter exists_true raw) \<and>
      (only_found \<longrightarrow> detailed_results r = None) \<and>
      (\<not> only_found \<longrightarrow>
         (\<exists>dr. detailed_results r = Some dr \<and>
            map exists dr = map exists_true raw \<and>
            total_checked r = length (filter exists dr) + length (filter (\<lambda>i. \<not> exists i) dr) \<and>
            found_count r = length (filter exists dr)))) \<and>
   \<not> exists_true (errored_outcome nm dmn) \<and>
   (maigret_search_username rsd search uname top_sites timeout tgs site_list use_cookies = Inr u \<longrightarrow>
      total_sites_checked u = length (sites_found u) + length (sites_not_found u) \<and>
      (\<exists>sites raw_sites.
         load_sites rsd top_sites tgs site_list = Inr sites \<and>
         search uname sites timeout (if use_cookies then Some ''cookies.txt'' else None) = Inr raw_sites \<and>
         total_sites_checked u = length raw_sites \<and>
         sites_found u = map entry_of (filter site_claimed raw_sites) \<and>
         sites_not_found u = map entry_of (filter (\<lambda>p. \<not> site_claimed p) raw_sites))) \<and>
   \<not> is_claimed AttrNone"
proof (intro conjI impI)
  assume a: "format_results raw mail only_found now = Inr r"
  show "total_checked r = length raw" by (rule format_results_Inr(1)[OF a])
  show "found_count r = length (filter exists_true raw)" by (rule format_results_Inr(3)[OF a])
  { assume "only_found"
    then show "detailed_results r = None" by (rule format_results_Inr(4)[OF a]) }
  { assume n: "\<not> only_found"
    from format_results_Inr(5)[OF a n] obtain dr where
      dr: "detailed_results r = Some dr" and ex: "map exists dr = map exists_true raw"
      by blast
    have len: "length dr = length raw" using ex by (metis length_map)
    have "length (filter exists dr) = length (filter (\<lambda>b. b) (map exists dr))"
      by (simp add: filter_map comp_def)
    also have "\<dots> = length (filter (\<lambda>b. b) (map exists_true raw))" using ex by simp
    also have "\<dots> = length (filter exists_true raw)" by (simp add: filter_map comp_def)
    finally have fc: "found_count r = length (filter exists dr)"
      using format_results_Inr(3)[OF a] by simp
    have "total_checked r = length (filter exists dr) + length (filter (\<lambda>i. \<not> exists i) dr)"
      using format_results_Inr(1)[OF a] len length_filter_partition[of exists dr] by simp
    with dr ex fc
    show "\<exists>dr. detailed_results r = Some dr \<and>
            map exists dr = map exists_true raw \<and>
            total_checked r = length (filter exists dr) + length (filter (\<lambda>i. \<not> exists i) dr) \<and>
            found_count r = length (filter exists dr)"
      by blast }
next
  show "\<not> exists_true (errored_outcome nm dmn)"
    by (simp add: exists_true_def errored_outcome_def dict_get_def)
next
  assume a: "maigret_search_username rsd search uname top_sites timeout tgs site_list use_cookies = Inr u"
  from maigret_search_username_Inr[OF a] obtain sites raw_sites where
    ls: "load_sites rsd top_sites tgs site_list = Inr sites" and
    se: "search uname sites timeout (if use_cookies then Some ''cookies.txt'' else None) = Inr raw_sites" and
    u: "u = \<lparr>username = uname,
                sites_found = map entry_of (filter site_claimed raw_sites),
                sites_not_found = map entry_of (filter (\<lambda>p. \<not> site_claimed p) raw_sites),
                total_sites_checked = length raw_sites\<rparr>"
    by blast
  show "total_sites_checked u = length (sites_found u) + length (sites_not_found u)"
    using u length_filter_partition[of site_claimed raw_sites] by simp
  show "\<exists>sites raw_sites.
         load_sites rsd top_sites tgs site_list = Inr sites \<and>
         search uname sites timeout (if use_cookies then Some ''cookies.txt'' else None) = Inr raw_sites \<and>
         total_sites_checked u = length raw_sites \<and>
         sites_found u = map entry_of (filter site_claimed raw_sites) \<and>
         sites_not_found u = map entry_of (filter (\<lambda>p. \<not> site_claimed p) raw_sites)"
    using ls se u by auto
next
  show "\<not> is_claimed AttrNone" by (simp add: is_claimed_def)
qed

theorem total_checked_found_only_counterexample:
  "format_results
     [[(''name'', PStr ''github''), (''domain'', PStr ''github.com''), (''exists'', PBool False)]]
     ''user@example.com'' True ''t'' =
   Inr \<lparr>success = True, email = ''user@example.com'', total_checked = 1, found_count = 0,
        platforms_found = [], detailed_results = None, checked_at = ''t''\<rparr>"
  by (simp add: format_results_def dict_get_def)

theorem total_checked_counts_every_outcome_witness:
  "format_results
     [[(''name'', PStr ''github''), (''domain'', PStr ''github.com''), (''exists'', PBool True)],
      errored_outcome ''reddit'' ''reddit.com'']
     ''user@example.com'' False ''t'' =
   Inr \<lparr>success = True, email = ''user@example.com'', total_checked = 2, found_count = 1,
        platforms_found = [''github.com''],
        detailed_results =
          Some [\<lparr>platform = ''github.com'', name = ''github'', exists = True,
                  email_recovery = None, phone_number = None, additional_info = None\<rparr>,
                \<lparr>platform = ''reddit.com'', name = ''reddit'', exists = False,
                  email_recovery = None, phone_number = None, additional_info = None\<rparr>],
        checked_at = ''t''\<rparr> \<and>
   format_results
     [[(''name'', PStr ''github''), (''domain'', PStr ''github.com''), (''exists'', PBool True)],
      errored_outcome ''reddit'' ''reddit.com'']
     ''user@example.com'' True ''t'' =
   Inr \<lparr>success = True, email = ''user@example.com'', total_checked = 2, found_count = 1,
        platforms_found = [''github.com''], detailed_results = None, checked_at = ''t''\<rparr> \<and>
   maigret_search_username
     (\<lambda>top_sites tgs names disabled id_type. Inr [''GitHub'', ''Gone''])
     (\<lambda>uname sites timeout cookies.
        Inr [(''GitHub'',
              \<lparr>raw_status = Some \<lparr>status_attr = AttrStr ''found'', tags_attr = None\<rparr>,
               raw_url_main = PNone, raw_url_user = PNone, raw_category = PNone\<rparr>),
             (''Gone'',
              \<lparr>raw_status = None, raw_url_main = PNone, raw_url_user = PNone,
               raw_category = PNone\<rparr>)])
     ''alice'' 200 30 None None False =
   Inr \<lparr>username = ''alice'',
        sites_found =
          [\<lparr>site = ''GitHub'', url_main = PNone, url_user = PNone, category = PNone,
            status = AttrStr ''found'', tags = []\<rparr>],
        sites_not_found =
          [\<lparr>site = ''Gone'', url_main = PNone, url_user = PNone, category = PNone,
            status = AttrNone, tags = []\<rparr>],
        total_sites_checked = 2\<rparr> \<and>
   \<not> exists_true (errored_outcome ''reddit'' ''reddit.com'')"
proof -
  let ?raw = "[[(''name'', PStr ''github''), (''domain'', PStr ''github.com''), (''exists'', PBool True)],
      errored_outcome ''reddit'' ''reddit.com'']"
  have l: "py_lower ''found'' = ''found''" "py_lower ''None'' = ''none''" by code_simp+
  have f: "format_results ?raw ''user@example.com'' False ''t'' =
   Inr \<lparr>success = True, email = ''user@example.com'', total_checked = 2, found_count = 1,
        platforms_found = [''github.com''],
        detailed_results =
          Some [\<lparr>platform = ''github.com'', name = ''github'', exists = True,
                  email_recovery = None, phone_number = None, additional_info = None\<rparr>,
                \<lparr>platform = ''reddit.com'', name = ''reddit'', exists = False,
                  email_recovery = None, phone_number = None, additional_info = None\<rparr>],
        checked_at = ''t''\<rparr>"
    by (simp add: format_results_def dict_get_def found_info_def not_found_info_def
          make_PlatformInfo_def errored_outcome_def)
  have g: "format_results ?raw ''user@example.com'' True ''t'' =
   Inr \<lparr>success = True, email = ''user@example.com'', total_checked = 2, found_count = 1,
        platforms_found = [''github.com''], detailed_results = None, checked_at = ''t''\<rparr>"
    by (simp add: format_results_def dict_get_def found_info_def not_found_info_def
          make_PlatformInfo_def errored_outcome_def)
  have u: "maigret_search_username
     (\<lambda>top_sites tgs names disabled id_type. Inr [''GitHub'', ''Gone''])
     (\<lambda>uname sites timeout cookies.
        Inr [(''GitHub'',
              \<lparr>raw_status = Some \<lparr>status_attr = AttrStr ''found'', tags_attr = None\<rparr>,
               raw_url_main = PNone, raw_url_user = PNone, raw_category = PNone\<rparr>),
             (''Gone'',
              \<lparr>raw_status = None, raw_url_main = PNone, raw_url_user = PNone,
               raw_category = PNone\<rparr>)])
     ''alice'' 200 30 None None False =
   Inr \<lparr>username = ''alice'',
        sites_found =
          [\<lparr>site = ''GitHub'', url_main = PNone, url_user = PNone, category = PNone,
            status = AttrStr ''found'', tags = []\<rparr>],
        sites_not_found =
          [\<lparr>site = ''Gone'', url_main = PNone, url_user = PNone, category = PNone,
            status = AttrNone, tags = []\<rparr>],
        total_sites_checked = 2\<rparr>"
    by (simp add: maigret_search_username_def load_sites_def is_claimed_def status_str_of_def
          make_entry_def tags_list_of_def l)
  note t = total_checked_counts_every_outcome[where nm = "''reddit''" and dmn = "''reddit.com''"
             and raw = ?raw and mail = "''user@example.com''" and only_found = False
             and now = "''t''"]
  have e: "\<not> exists_true (errored_outcome ''reddit'' ''reddit.com'')"
    by (rule t[THEN conjunct2, THEN conjunct1])
  have c: "total_checked \<lparr>success = True, email = ''user@example.com'', total_checked = 2,
        found_count = 1, platforms_found = [''github.com''],
        detailed_results =
          Some [\<lparr>platform = ''github.com'', name = ''github'', exists = True,
                  email_recovery = None, phone_number = None, additional_info = None\<rparr>,
                \<lparr>platform = ''reddit.com'', name = ''reddit'', exists = False,
                  email_recovery = None, phone_number = None, additional_info = None\<rparr>],
        checked_at = ''t''\<rparr> = length ?raw"
    using t[THEN conjunct1, THEN mp, OF f] by (rule conjunct1)
  note tu = total_checked_counts_every_outcome[THEN conjunct2, THEN conjunct2, THEN conjunct1,
              THEN mp, OF u]
  have d: "total_sites_checked \<lparr>username = ''alice'',
        sites_found =
          [\<lparr>site = ''GitHub'', url_main = PNone, url_user = PNone, category = PNone,
            status = AttrStr ''found'', tags = []\<rparr>],
        sites_not_found =
          [\<lparr>site = ''Gone'', url_main = PNone, url_user = PNone, category = PNone,
            status = AttrNone, tags = []\<rparr>],
        total_sites_checked = 2\<rparr> = 1 + 1"
    using tu[THEN conjunct1] by simp
  show ?thesis using f g u e c d by simp
qed

text \<open>
  C2, as the code has it. When a probe raises and the handler can derive a name from
  its string representation, as it can for every Python function,
  \<open>launch_module_check\<close> returns: it appends one errored outcome with \<open>error\<close> true
  and \<open>exists\<close> false, whose name is the derived name and whose domain is the entry of
  the domain map for that name, or \<open>unknown\<close> when the map has none, not the probe's
  own domain label. Whatever the probes do, no exception of theirs leaves the nursery:
  the batch runs to its end and its outcomes are sorted. When each probe, run for the
  identity of the batch, either raises and leaves the list as it was or returns after
  it appended one typed outcome, the batch holds one outcome for each probe, among them
  the errored outcome of each probe that raises for this identity, and \<open>total_checked\<close>
  is the number of probes; when every probe raises, the caller gets the aggregate
  result with nothing found.
\<close>

theorem raising_probe_is_contained:
  "(function_name (repr w) = Inr nm \<and> run w mail results = (results', Some e) \<longrightarrow>
      launch_module_check w mail results = Inr (results' @ [errored_outcome nm (domain_of nm)]) \<and>
      dict_get (errored_outcome nm (domain_of nm)) ''error'' PNone = PBool True \<and>
      dict_get (errored_outcome nm (domain_of nm)) ''exists'' PNone = PBool False \<and>
      dict_get (errored_outcome nm (domain_of nm)) ''name'' PNone = PStr nm \<and>
      dict_get (errored_outcome nm (domain_of nm)) ''domain'' PNone = PStr (domain_of nm)) \<and>
   (nm' \<notin> set (map fst DOMAIN_MAP) \<longrightarrow> domain_of nm' = ''unknown'') \<and>
   (is_valid_email mail \<and>
    (\<forall>p \<in> set (get_check_functions modules exclude_password_recovery). named p) \<longrightarrow>
      (\<exists>res.
         run_nursery sched (get_check_functions modules exclude_password_recovery) mail [] = Inr res \<and>
         snd (check_email_trio mail exclude_password_recovery timeout (Some modules) sched) =
           sort_by_name res)) \<and>
   (is_valid_email mail \<and>
    (\<forall>p \<in> set (get_check_functions modules exclude_password_recovery).
       named p \<and> (\<forall>r. one_outcome p mail r)) \<longrightarrow>
      (\<exists>res resp.
         snd (check_email_trio mail exclude_password_recovery timeout (Some modules) sched) = Inr res \<and>
         length res = length (get_check_functions modules exclude_password_recovery) \<and>
         mset (map errored_for
                (filter (\<lambda>p. raises_for p mail)
                   (get_check_functions modules exclude_password_recovery)))
           \<subseteq># mset res \<and>
         format_results res mail only_found now = Inr resp \<and>
         total_checked resp = length (get_check_functions modules exclude_password_recovery))) \<and>
   (is_valid_email mail \<and>
    (\<forall>p \<in> set (get_check_functions modules exclude_password_recovery).
       named p \<and> raises_for p mail) \<longrightarrow>
      (\<exists>res resp.
         snd (check_email_trio mail exclude_password_recovery timeout (Some modules) sched) = Inr res \<and>
         mset res = mset (map errored_for (get_check_functions modules exclude_password_recovery)) \<and>
         format_results res mail only_found now = Inr resp \<and>
         total_checked resp = length (get_check_functions modules exclude_password_recovery) \<and>
         found_count resp = 0 \<and> platforms_found resp = []))"
proof (intro conjI impI)
  assume a: "function_name (repr w) = Inr nm \<and> run w mail results = (results', Some e)"
  then have n: "named w" by (simp add: named_def)
  from a have f: "function_name (repr w) = Inr nm" by simp
  show "launch_module_check w mail results = Inr (results' @ [errored_outcome nm (domain_of nm)])"
    using launch_raises[OF n, of mail results results' e] a errored_for_fields(1)[OF f] by simp
  show "dict_get (errored_outcome nm (domain_of nm)) ''error'' PNone = PBool True"
    by (simp add: errored_outcome_def dict_get_def)
  show "dict_get (errored_outcome nm (domain_of nm)) ''exists'' PNone = PBool False"
    by (simp add: errored_outcome_def dict_get_def)
  show "dict_get (errored_outcome nm (domain_of nm)) ''name'' PNone = PStr nm"
    by (simp add: errored_outcome_def dict_get_def)
  show "dict_get (errored_outcome nm (domain_of nm)) ''domain'' PNone = PStr (domain_of nm)"
    by (simp add: errored_outcome_def dict_get_def)
next
  assume "nm' \<notin> set (map fst DOMAIN_MAP)"
  then show "domain_of nm' = ''unknown''" by (rule domain_of_unmapped)
next
  assume "is_valid_email mail \<and>
    (\<forall>p \<in> set (get_check_functions modules exclude_password_recovery). named p)"
  then show "\<exists>res.
         run_nursery sched (get_check_functions modules exclude_password_recovery) mail [] = Inr res \<and>
         snd (check_email_trio mail exclude_password_recovery timeout (Some modules) sched) =
           sort_by_name res"
    using check_email_trio_named by blast
next
  assume "is_valid_email mail \<and>
    (\<forall>p \<in> set (get_check_functions modules exclude_password_recovery).
       named p \<and> (\<forall>r. one_outcome p mail r))"
  then show "\<exists>res resp.
         snd (check_email_trio mail exclude_password_recovery timeout (Some modules) sched) = Inr res \<and>
         length res = length (get_check_functions modules exclude_password_recovery) \<and>
         mset (map errored_for
                (filter (\<lambda>p. raises_for p mail)
                   (get_check_functions modules exclude_password_recovery)))
           \<subseteq># mset res \<and>
         format_results res mail only_found now = Inr resp \<and>
         total_checked resp = length (get_check_functions modules exclude_password_recovery)"
    using check_email_trio_one_outcome by blast
next
  assume "is_valid_email mail \<and>
    (\<forall>p \<in> set (get_check_functions modules exclude_password_recovery).
       named p \<and> raises_for p mail)"
  then show "\<exists>res resp.
         snd (check_email_trio mail exclude_password_recovery timeout (Some modules) sched) = Inr res \<and>
         mset res = mset (map errored_for (get_check_functions modules exclude_password_recovery)) \<and>
         format_results res mail only_found now = Inr resp \<and>
         total_checked resp = length (get_check_functions modules exclude_password_recovery) \<and>
         found_count resp = 0 \<and> platforms_found resp = []"
    using check_email_trio_all_raise by blast
qed

theorem errored_outcome_domain_unknown_counterexample:
  "launch_module_check
     \<lparr>repr = ''<function ebay at 0x7f20>'',
      run = (\<lambda>m r. if m = ''user@example.com'' then (r, Some (OtherException ''boom''))
                    else (r @ [[(''name'', PStr ''ebay''), (''domain'', PStr ''ebay.com''),
                                (''exists'', PBool False)]], None))\<rparr>
     ''other@example.com'' [] =
   Inr [[(''name'', PStr ''ebay''), (''domain'', PStr ''ebay.com''), (''exists'', PBool False)]] \<and>
   launch_module_check
     \<lparr>repr = ''<function ebay at 0x7f20>'',
      run = (\<lambda>m r. if m = ''user@example.com'' then (r, Some (OtherException ''boom''))
                    else (r @ [[(''name'', PStr ''ebay''), (''domain'', PStr ''ebay.com''),
                                (''exists'', PBool False)]], None))\<rparr>
     ''user@example.com'' [] =
   Inr [[(''name'', PStr ''ebay''), (''domain'', PStr ''unknown''),
         (''rateLimit'', PBool False), (''error'', PBool True), (''exists'', PBool False),
         (''emailrecovery'', PNone), (''phoneNumber'', PNone), (''others'', PNone)]]"
  by (simp add: launch_module_check_def function_name_def domain_of_def DOMAIN_MAP_def
        errored_outcome_def)

theorem raising_probe_is_contained_witness:
  "is_valid_email ''user@example.com'' \<and>
   launch_module_check
     \<lparr>repr = ''<function github at 0x7f00>'', run = (\<lambda>m r. (r, Some (OtherException ''boom'')))\<rparr>
     ''user@example.com'' [] =
   Inr [errored_outcome ''github'' ''github.com''] \<and>
   domain_of ''ebay'' = ''unknown'' \<and>
   snd (check_email_trio ''user@example.com'' True 15
     (Some [(''holehe.modules.software.github'',
             [(''github'', \<lparr>repr = ''<function github at 0x7f00>'',
                            run = (\<lambda>m r. (r, Some (OtherException ''boom'')))\<rparr>)]),
            (''holehe.modules.shopping.ebay'',
             [(''ebay'',
               \<lparr>repr = ''<function ebay at 0x7f20>'',
                run = (\<lambda>m r. if m = ''user@example.com'' then (r, Some (OtherException ''boom''))
                              else (r @ [[(''name'', PStr ''ebay''), (''domain'', PStr ''ebay.com''),
                                          (''exists'', PBool False)]], None))\<rparr>)])])
     [1]) =
   Inr [errored_outcome ''ebay'' ''unknown'', errored_outcome ''github'' ''github.com''] \<and>
   format_results
     [errored_outcome ''ebay'' ''unknown'', errored_outcome ''github'' ''github.com'']
     ''user@example.com'' True ''t'' =
   Inr \<lparr>success = True, email = ''user@example.com'', total_checked = 2, found_count = 0,
        platforms_found = [], detailed_results = None, checked_at = ''t''\<rparr>"
proof -
  let ?gh = "\<lparr>repr = ''<function github at 0x7f00>'',
              run = (\<lambda>m r. (r, Some (OtherException ''boom'')))\<rparr>"
  let ?eb = "\<lparr>repr = ''<function ebay at 0x7f20>'',
              run = (\<lambda>m r. if m = ''user@example.com'' then (r, Some (OtherException ''boom''))
                            else (r @ [[(''name'', PStr ''ebay''), (''domain'', PStr ''ebay.com''),
                                        (''exists'', PBool False)]], None))\<rparr>"
  let ?mods = "[(''holehe.modules.software.github'', [(''github'', ?gh)]),
                (''holehe.modules.shopping.ebay'', [(''ebay'', ?eb)])]"
  have v: "is_valid_email ''user@example.com''" by code_simp
  have g: "get_check_functions ?mods True = [?gh, ?eb]" by (simp add: exclude_list_def)
  have n1: "function_name ''<function github at 0x7f00>'' = Inr ''github''"
    by (simp add: function_name_def)
  have n2: "function_name ''<function ebay at 0x7f20>'' = Inr ''ebay''"
    by (simp add: function_name_def)
  have d1: "domain_of ''github'' = ''github.com''" by (simp add: domain_of_def DOMAIN_MAP_def)
  have um: "''ebay'' \<notin> set (map fst DOMAIN_MAP)" by (simp add: DOMAIN_MAP_def)
  have b: "\<forall>p \<in> set (get_check_functions ?mods True).
             named p \<and> raises_for p ''user@example.com''"
    unfolding g by (simp add: named_def n1 n2 raises_for_def)
  have b1: "\<forall>p \<in> set (get_check_functions ?mods True).
             named p \<and> (\<forall>r. one_outcome p ''user@example.com'' r)"
    unfolding g by (simp add: named_def n1 n2 one_outcome_def)
  note t = raising_probe_is_contained[where w = ?gh and nm = "''github''"
             and mail = "''user@example.com''" and results = "[]" and results' = "[]"
             and e = "OtherException ''boom''" and nm' = "''ebay''" and modules = ?mods
             and exclude_password_recovery = True and only_found = True and now = "''t''"
             and timeout = 15 and sched = "[1]"]
  have l: "launch_module_check ?gh ''user@example.com'' [] =
             Inr [errored_outcome ''github'' ''github.com'']"
    using t[THEN conjunct1, THEN mp] by (simp add: n1 d1)
  have d2: "domain_of ''ebay'' = ''unknown''"
    using t[THEN conjunct2, THEN conjunct1, THEN mp, OF um] .
  have lt: "\<not> ''github'' \<le> ''ebay''" by code_simp
  have c: "snd (check_email_trio ''user@example.com'' True 15 (Some ?mods) [1]) =
             Inr [errored_outcome ''ebay'' ''unknown'', errored_outcome ''github'' ''github.com'']"
    using v lt
    by (simp add: check_email_trio_def exclude_list_def pick_def remove_nth_def
          launch_module_check_def n1 n2 d1 d2 sort_by_name_def name_key_errored)
  note one = t[THEN conjunct2, THEN conjunct2, THEN conjunct2, THEN conjunct1, THEN mp,
               OF conjI, OF v b1]
  from one obtain res1 where
    q1: "snd (check_email_trio ''user@example.com'' True 15 (Some ?mods) [1]) = Inr res1" and
    q2: "length res1 = length (get_check_functions ?mods True)"
    by (elim exE conjE)
  from t[THEN conjunct2, THEN conjunct2, THEN conjunct2, THEN conjunct2, THEN mp, OF conjI, OF v b]
  obtain res resp where
    r1: "snd (check_email_trio ''user@example.com'' True 15 (Some ?mods) [1]) = Inr res" and
    r2: "format_results res ''user@example.com'' True ''t'' = Inr resp" and
    r3: "total_checked resp = length (get_check_functions ?mods True)" and
    r4: "found_count resp = 0" and r5: "platforms_found resp = []"
    by blast
  have res: "res = [errored_outcome ''ebay'' ''unknown'', errored_outcome ''github'' ''github.com'']"
    using r1 c by simp
  have f: "format_results
     [errored_outcome ''ebay'' ''unknown'', errored_outcome ''github'' ''github.com'']
     ''user@example.com'' True ''t'' =
   Inr \<lparr>success = True, email = ''user@example.com'', total_checked = 2, found_count = 0,
        platforms_found = [], detailed_results = None, checked_at = ''t''\<rparr>"
    by (simp add: format_results_def errored_outcome_def dict_get_def)
  show ?thesis using v l d2 c f r2 r3 r4 r5 res g q1 q2 by simp
qed

text \<open>
  C3, as the code has it. Email path: the list \<open>check_email_trio\<close> returns is the
  collected outcomes put in ascending order of the \<open>name\<close> key by a stable sort, so
  two arrival orders of the same outcomes, whose names are strings and pairwise
  different, give the same list; with probes that each contribute a fixed outcome
  under such names, the result does not depend on the order in which the probes
  finish. Username path: nothing is sorted; \<open>sites_found\<close> and
  \<open>sites_not_found\<close> keep the order in which the search returned the sites.
\<close>

theorem email_sorted_username_in_search_order:
  "(sort_by_name results = Inr r \<longrightarrow>
      mset r = mset results \<and> sorted_wrt key_le (map name_key r)) \<and>
   (snd (check_email_trio mail exclude_password_recovery timeout imported sched) = Inr r' \<longrightarrow>
      sorted_wrt key_le (map name_key r')) \<and>
   (mset xs = mset ys \<and> list_all (\<lambda>x. is_str (name_key x)) xs \<and> distinct (map name_key xs) \<longrightarrow>
      sort_by_name ys = sort_by_name xs \<and>
      sort_by_name xs = Inr (sort_key (\<lambda>x. str_of (name_key x)) xs)) \<and>
   (is_valid_email mail \<and>
    (\<forall>p \<in> set (get_check_functions modules exclude_password_recovery).
       contributes p mail (out p)) \<and>
    list_all (\<lambda>p. is_str (name_key (out p)))
      (get_check_functions modules exclude_password_recovery) \<and>
    distinct (map (\<lambda>p. name_key (out p))
      (get_check_functions modules exclude_password_recovery)) \<longrightarrow>
      check_email_trio mail exclude_password_recovery timeout (Some modules) sched_a =
      check_email_trio mail exclude_password_recovery timeout (Some modules) sched_b) \<and>
   (maigret_search_username rsd search uname top_sites timeout2 tgs site_list use_cookies = Inr u \<longrightarrow>
      (\<exists>sites raw.
         load_sites rsd top_sites tgs site_list = Inr sites \<and>
         search uname sites timeout2 (if use_cookies then Some ''cookies.txt'' else None) = Inr raw \<and>
         map site (sites_found u) = map fst (filter site_claimed raw) \<and>
         map site (sites_not_found u) = map fst (filter (\<lambda>p. \<not> site_claimed p) raw)))"
proof (intro conjI impI)
  assume a: "sort_by_name results = Inr r"
  show "mset r = mset results" by (rule sort_by_name_Inr(1)[OF a])
  show "sorted_wrt key_le (map name_key r)" by (rule sort_by_name_Inr(2)[OF a])
next
  assume "snd (check_email_trio mail exclude_password_recovery timeout imported sched) = Inr r'"
  then obtain rs where "sort_by_name rs = Inr r'" using check_email_trio_sorted by blast
  then show "sorted_wrt key_le (map name_key r')" by (rule sort_by_name_Inr(2))
next
  assume a: "mset xs = mset ys \<and> list_all (\<lambda>x. is_str (name_key x)) xs \<and> distinct (map name_key xs)"
  then show "sort_by_name ys = sort_by_name xs" using sort_by_name_perm by blast
  show "sort_by_name xs = Inr (sort_key (\<lambda>x. str_of (name_key x)) xs)"
  proof (cases "length xs \<le> 1")
    case True
    then have "xs = [] \<or> (\<exists>x. xs = [x])" by (cases xs) auto
    then show ?thesis by (auto simp: sort_by_name_def)
  next
    case False
    with a show ?thesis by (simp add: sort_by_name_def)
  qed
next
  assume "is_valid_email mail \<and>
    (\<forall>p \<in> set (get_check_functions modules exclude_password_recovery).
       contributes p mail (out p)) \<and>
    list_all (\<lambda>p. is_str (name_key (out p)))
      (get_check_functions modules exclude_password_recovery) \<and>
    distinct (map (\<lambda>p. name_key (out p))
      (get_check_functions modules exclude_password_recovery))"
  then show "check_email_trio mail exclude_password_recovery timeout (Some modules) sched_a =
      check_email_trio mail exclude_password_recovery timeout (Some modules) sched_b"
    using check_email_trio_schedule_free[of mail modules exclude_password_recovery out]
    by blast
next
  assume a: "maigret_search_username rsd search uname top_sites timeout2 tgs site_list use_cookies = Inr u"
  from maigret_search_username_Inr[OF a] obtain sites raw where
    ls: "load_sites rsd top_sites tgs site_list = Inr sites" and
    se: "search uname sites timeout2 (if use_cookies then Some ''cookies.txt'' else None) = Inr raw" and
    u: "u = \<lparr>username = uname,
                sites_found = map entry_of (filter site_claimed raw),
                sites_not_found = map entry_of (filter (\<lambda>p. \<not> site_claimed p) raw),
                total_sites_checked = length raw\<rparr>"
    by blast
  have "map site (sites_found u) = map fst (filter site_claimed raw)"
    using u by (simp add: comp_def entry_of_site)
  moreover have "map site (sites_not_found u) = map fst (filter (\<lambda>p. \<not> site_claimed p) raw)"
    using u by (simp add: comp_def entry_of_site)
  ultimately show "\<exists>sites raw.
         load_sites rsd top_sites tgs site_list = Inr sites \<and>
         search uname sites timeout2 (if use_cookies then Some ''cookies.txt'' else None) = Inr raw \<and>
         map site (sites_found u) = map fst (filter site_claimed raw) \<and>
         map site (sites_not_found u) = map fst (filter (\<lambda>p. \<not> site_claimed p) raw)"
    using ls se by blast
qed

theorem username_path_not_sorted_counterexample:
  "maigret_search_username
     (\<lambda>top_sites tgs names disabled id_type. Inr [''Reddit'', ''GitHub''])
     (\<lambda>uname sites timeout cookies.
        Inr (map (\<lambda>s. (s, \<lparr>raw_status = None, raw_url_main = PNone, raw_url_user = PNone,
                            raw_category = PNone\<rparr>)) sites))
     ''alice'' 200 30 None None False =
   Inr \<lparr>username = ''alice'', sites_found = [],
        sites_not_found =
          [\<lparr>site = ''Reddit'', url_main = PNone, url_user = PNone, category = PNone,
            status = AttrNone, tags = []\<rparr>,
           \<lparr>site = ''GitHub'', url_main = PNone, url_user = PNone, category = PNone,
            status = AttrNone, tags = []\<rparr>],
        total_sites_checked = 2\<rparr> \<and>
   ''GitHub'' < ''Reddit'' \<and>
   maigret_search_username
     (\<lambda>top_sites tgs names disabled id_type. Inr [''GitHub'', ''Reddit''])
     (\<lambda>uname sites timeout cookies.
        Inr (map (\<lambda>s. (s, \<lparr>raw_status = None, raw_url_main = PNone, raw_url_user = PNone,
                            raw_category = PNone\<rparr>)) sites))
     ''alice'' 200 30 None None False =
   Inr \<lparr>username = ''alice'', sites_found = [],
        sites_not_found =
          [\<lparr>site = ''GitHub'', url_main = PNone, url_user = PNone, category = PNone,
            status = AttrNone, tags = []\<rparr>,
           \<lparr>site = ''Reddit'', url_main = PNone, url_user = PNone, category = PNone,
            status = AttrNone, tags = []\<rparr>],
        total_sites_checked = 2\<rparr>"
proof -
  have lt: "''GitHub'' < ''Reddit''" by code_simp
  show ?thesis
    using lt
    by (simp add: maigret_search_username_def load_sites_def is_claimed_def status_str_of_def
          make_entry_def tags_list_of_def)
qed

theorem email_sorted_username_in_search_order_witness:
  "sort_by_name
     [errored_outcome ''spotify'' ''spotify.com'', errored_outcome ''github'' ''github.com''] =
   Inr [errored_outcome ''github'' ''github.com'', errored_outcome ''spotify'' ''spotify.com''] \<and>
   sort_by_name
     [errored_outcome ''github'' ''github.com'', errored_outcome ''spotify'' ''spotify.com''] =
   Inr [errored_outcome ''github'' ''github.com'', errored_outcome ''spotify'' ''spotify.com''] \<and>
   sorted_wrt key_le [PStr ''github'', PStr ''spotify''] \<and>
   is_valid_email ''user@example.com'' \<and>
   check_email_trio ''user@example.com'' True 15
     (Some [(''holehe.modules.music.spotify'',
             [(''spotify'', \<lparr>repr = ''<function spotify at 0x7f10>'',
                             run = (\<lambda>m r. (r @ [[(''name'', PStr ''spotify''),
                                                    (''exists'', PBool True)]], None))\<rparr>)]),
            (''holehe.modules.software.github'',
             [(''github'', \<lparr>repr = ''<function github at 0x7f00>'',
                            run = (\<lambda>m r. (r, Some TimeoutException))\<rparr>)])])
     [0] =
   ([Validated ''user@example.com'', ImportModules, Launched ''<function spotify at 0x7f10>'',
     Launched ''<function github at 0x7f00>''],
    Inr [errored_outcome ''github'' ''github.com'',
         [(''name'', PStr ''spotify''), (''exists'', PBool True)]]) \<and>
   check_email_trio ''user@example.com'' True 15
     (Some [(''holehe.modules.music.spotify'',
             [(''spotify'', \<lparr>repr = ''<function spotify at 0x7f10>'',
                             run = (\<lambda>m r. (r @ [[(''name'', PStr ''spotify''),
                                                    (''exists'', PBool True)]], None))\<rparr>)]),
            (''holehe.modules.software.github'',
             [(''github'', \<lparr>repr = ''<function github at 0x7f00>'',
                            run = (\<lambda>m r. (r, Some TimeoutException))\<rparr>)])])
     [1] =
   ([Validated ''user@example.com'', ImportModules, Launched ''<function spotify at 0x7f10>'',
     Launched ''<function github at 0x7f00>''],
    Inr [errored_outcome ''github'' ''github.com'',
         [(''name'', PStr ''spotify''), (''exists'', PBool True)]]) \<and>
   map site
     [\<lparr>site = ''Reddit'', url_main = PNone, url_user = PNone, category = PNone,
       status = AttrNone, tags = []\<rparr>,
      \<lparr>site = ''GitHub'', url_main = PNone, url_user = PNone, category = PNone,
       status = AttrNone, tags = []\<rparr>] = [''Reddit'', ''GitHub'']"
proof -
  let ?a = "errored_outcome ''github'' ''github.com''"
  let ?b = "errored_outcome ''spotify'' ''spotify.com''"
  let ?so = "[(''name'', PStr ''spotify''), (''exists'', PBool True)]"
  let ?gh = "\<lparr>repr = ''<function github at 0x7f00>'', run = (\<lambda>m r. (r, Some TimeoutException))\<rparr>"
  let ?sp = "\<lparr>repr = ''<function spotify at 0x7f10>'', run = (\<lambda>m r. (r @ [?so], None))\<rparr>"
  let ?mods = "[(''holehe.modules.music.spotify'', [(''spotify'', ?sp)]),
                (''holehe.modules.software.github'', [(''github'', ?gh)])]"
  let ?out = "\<lambda>p. if repr p = ''<function github at 0x7f00>'' then ?a else ?so"
  have lt: "''github'' \<le> ''spotify''" "\<not> ''spotify'' \<le> ''github''" by code_simp+
  have s1: "sort_by_name [?b, ?a] = Inr [?a, ?b]"
    using lt by (simp add: sort_by_name_def name_key_errored)
  have h: "mset [?b, ?a] = mset [?a, ?b] \<and> list_all (\<lambda>x. is_str (name_key x)) [?b, ?a] \<and>
           distinct (map name_key [?b, ?a])"
    by (simp add: name_key_errored)
  note t = email_sorted_username_in_search_order[where xs = "[?b, ?a]" and ys = "[?a, ?b]"
             and results = "[?b, ?a]" and r = "[?a, ?b]" and mail = "''user@example.com''"
             and modules = ?mods and exclude_password_recovery = True and out = ?out
             and timeout = 15 and sched_a = "[0]" and sched_b = "[1]"]
  have s2: "sort_by_name [?a, ?b] = sort_by_name [?b, ?a]"
    using t[THEN conjunct2, THEN conjunct2, THEN conjunct1, THEN mp, OF h] by (rule conjunct1)
  have k: "sorted_wrt key_le (map name_key [?a, ?b])"
    using t[THEN conjunct1, THEN mp, OF s1] by (rule conjunct2)
  have v: "is_valid_email ''user@example.com''" by code_simp
  have g: "get_check_functions ?mods True = [?sp, ?gh]" by (simp add: exclude_list_def)
  have n1: "function_name ''<function github at 0x7f00>'' = Inr ''github''"
    by (simp add: function_name_def)
  have d1: "domain_of ''github'' = ''github.com''" by (simp add: domain_of_def DOMAIN_MAP_def)
  have hyp: "is_valid_email ''user@example.com'' \<and>
    (\<forall>p \<in> set (get_check_functions ?mods True). contributes p ''user@example.com'' (?out p)) \<and>
    list_all (\<lambda>p. is_str (name_key (?out p))) (get_check_functions ?mods True) \<and>
    distinct (map (\<lambda>p. name_key (?out p)) (get_check_functions ?mods True))"
    unfolding g using v
    by (simp add: contributes_def named_def errored_for_def n1 d1 name_key_def dict_get_def
          errored_outcome_def)
  have e: "check_email_trio ''user@example.com'' True 15 (Some ?mods) [0] =
           check_email_trio ''user@example.com'' True 15 (Some ?mods) [1]"
    using t[THEN conjunct2, THEN conjunct2, THEN conjunct2, THEN conjunct1, THEN mp, OF hyp] .
  have c0: "check_email_trio ''user@example.com'' True 15 (Some ?mods) [0] =
    ([Validated ''user@example.com'', ImportModules, Launched ''<function spotify at 0x7f10>'',
      Launched ''<function github at 0x7f00>''], Inr [?a, ?so])"
    using v lt
    by (simp add: check_email_trio_def exclude_list_def pick_def remove_nth_def
          launch_module_check_def n1 d1 sort_by_name_def name_key_def dict_get_def
          errored_outcome_def)
  have c1: "check_email_trio ''user@example.com'' True 15 (Some ?mods) [1] =
    ([Validated ''user@example.com'', ImportModules, Launched ''<function spotify at 0x7f10>'',
      Launched ''<function github at 0x7f00>''], Inr [?a, ?so])"
    using e c0 by (simp only:)
  have k': "sorted_wrt key_le [PStr ''github'', PStr ''spotify'']"
    using k by (simp add: name_key_errored)
  show ?thesis using s1 s2 k' v c0 c1 by simp
qed

text \<open>
  C4, as the code has it. There is no deadline on the batch: the timeout goes to the
  HTTP client, and a probe whose request times out raises like any failing probe. The
  handler records for it the one errored outcome it records for any exception, with
  the keys \<open>name\<close>, \<open>domain\<close>, \<open>rateLimit\<close>, \<open>error\<close>, \<open>exists\<close>,
  \<open>emailrecovery\<close>, \<open>phoneNumber\<close> and \<open>others\<close>, and no reason. When each probe,
  run for the identity of the batch, either raises and leaves the list as it was or
  returns after it appended one typed outcome, and the handler can derive each name,
  the batch holds one outcome for each probe, among them the errored outcome of each
  probe that raises for this identity, and \<open>total_checked\<close> is the number of probes.
\<close>

theorem raising_probe_yields_one_errored_outcome:
  "(named w \<and> run w mail results = (results', Some e) \<longrightarrow>
      launch_module_check w mail results = Inr (results' @ [errored_for w])) \<and>
   map fst (errored_outcome nm dmn) =
     [''name'', ''domain'', ''rateLimit'', ''error'', ''exists'', ''emailrecovery'',
      ''phoneNumber'', ''others''] \<and>
   (is_valid_email mail \<and>
    (\<forall>p \<in> set (get_check_functions modules exclude_password_recovery).
       named p \<and> (\<forall>r. one_outcome p mail r)) \<longrightarrow>
      (\<exists>res resp.
         snd (check_email_trio mail exclude_password_recovery timeout (Some modules) sched) = Inr res \<and>
         length res = length (get_check_functions modules exclude_password_recovery) \<and>
         mset (map errored_for
                (filter (\<lambda>p. raises_for p mail)
                   (get_check_functions modules exclude_password_recovery)))
           \<subseteq># mset res \<and>
         format_results res mail only_found now = Inr resp \<and>
         total_checked resp = length (get_check_functions modules exclude_password_recovery)))"
proof (intro conjI impI)
  assume "named w \<and> run w mail results = (results', Some e)"
  then show "launch_module_check w mail results = Inr (results' @ [errored_for w])"
    using launch_raises by blast
next
  show "map fst (errored_outcome nm dmn) =
     [''name'', ''domain'', ''rateLimit'', ''error'', ''exists'', ''emailrecovery'',
      ''phoneNumber'', ''others'']"
    by (simp add: errored_outcome_def)
next
  assume "is_valid_email mail \<and>
    (\<forall>p \<in> set (get_check_functions modules exclude_password_recovery).
       named p \<and> (\<forall>r. one_outcome p mail r))"
  then show "\<exists>res resp.
         snd (check_email_trio mail exclude_password_recovery timeout (Some modules) sched) = Inr res \<and>
         length res = length (get_check_functions modules exclude_password_recovery) \<and>
         mset (map errored_for
                (filter (\<lambda>p. raises_for p mail)
                   (get_check_functions modules exclude_password_recovery)))
           \<subseteq># mset res \<and>
         format_results res mail only_found now = Inr resp \<and>
         total_checked resp = length (get_check_functions modules exclude_password_recovery)"
    using check_email_trio_one_outcome by blast
qed

theorem timed_out_probe_no_reason_counterexample:
  "launch_module_check
     \<lparr>repr = ''<function github at 0x7f00>'', run = (\<lambda>m r. (r, Some TimeoutException))\<rparr>
     ''user@example.com'' [] =
   Inr [[(''name'', PStr ''github''), (''domain'', PStr ''github.com''),
         (''rateLimit'', PBool False), (''error'', PBool True), (''exists'', PBool False),
         (''emailrecovery'', PNone), (''phoneNumber'', PNone), (''others'', PNone)]] \<and>
   launch_module_check
     \<lparr>repr = ''<function github at 0x7f00>'', run = (\<lambda>m r. (r, Some (OtherException ''boom'')))\<rparr>
     ''user@example.com'' [] =
   Inr [[(''name'', PStr ''github''), (''domain'', PStr ''github.com''),
         (''rateLimit'', PBool False), (''error'', PBool True), (''exists'', PBool False),
         (''emailrecovery'', PNone), (''phoneNumber'', PNone), (''others'', PNone)]]"
  by (simp add: launch_module_check_def function_name_def domain_of_def DOMAIN_MAP_def
        errored_outcome_def)

theorem raising_probe_yields_one_errored_outcome_witness:
  "is_valid_email ''user@example.com'' \<and>
   get_check_functions
     [(''holehe.modules.software.github'',
       [(''github'',
         \<lparr>repr = ''<function github at 0x7f00>'',
          run = (\<lambda>m r. if m = ''user@example.com'' then (r, Some TimeoutException)
                        else (r @ [[(''name'', PStr ''github''), (''exists'', PBool False)]], None))\<rparr>)]),
      (''holehe.modules.music.spotify'',
       [(''spotify'', \<lparr>repr = ''<function spotify at 0x7f10>'',
                       run = (\<lambda>m r. (r @ [[(''name'', PStr ''spotify''), (''exists'', PBool True)]], None))\<rparr>)])]
     True =
   [\<lparr>repr = ''<function github at 0x7f00>'',
     run = (\<lambda>m r. if m = ''user@example.com'' then (r, Some TimeoutException)
                   else (r @ [[(''name'', PStr ''github''), (''exists'', PBool False)]], None))\<rparr>,
    \<lparr>repr = ''<function spotify at 0x7f10>'',
      run = (\<lambda>m r. (r @ [[(''name'', PStr ''spotify''), (''exists'', PBool True)]], None))\<rparr>] \<and>
   launch_module_check
     \<lparr>repr = ''<function github at 0x7f00>'',
      run = (\<lambda>m r. if m = ''user@example.com'' then (r, Some TimeoutException)
                    else (r @ [[(''name'', PStr ''github''), (''exists'', PBool False)]], None))\<rparr>
     ''user@example.com'' [] =
   Inr [errored_outcome ''github'' ''github.com''] \<and>
   snd (check_email_trio ''user@example.com'' True 15
     (Some [(''holehe.modules.software.github'',
       [(''github'',
         \<lparr>repr = ''<function github at 0x7f00>'',
          run = (\<lambda>m r. if m = ''user@example.com'' then (r, Some TimeoutException)
                        else (r @ [[(''name'', PStr ''github''), (''exists'', PBool False)]], None))\<rparr>)]),
      (''holehe.modules.music.spotify'',
       [(''spotify'', \<lparr>repr = ''<function spotify at 0x7f10>'',
                       run = (\<lambda>m r. (r @ [[(''name'', PStr ''spotify''), (''exists'', PBool True)]], None))\<rparr>)])])
     [1]) =
   Inr [errored_outcome ''github'' ''github.com'',
        [(''name'', PStr ''spotify''), (''exists'', PBool True)]] \<and>
   format_results
     [errored_outcome ''github'' ''github.com'',
      [(''name'', PStr ''spotify''), (''exists'', PBool True)]]
     ''user@example.com'' True ''t'' =
   Inr \<lparr>success = True, email = ''user@example.com'', total_checked = 2, found_count = 1,
        platforms_found = [''unknown''], detailed_results = None, checked_at = ''t''\<rparr>"
proof -
  let ?gh = "\<lparr>repr = ''<function github at 0x7f00>'',
     run = (\<lambda>m r. if m = ''user@example.com'' then (r, Some TimeoutException)
                   else (r @ [[(''name'', PStr ''github''), (''exists'', PBool False)]], None))\<rparr>"
  let ?sp = "\<lparr>repr = ''<function spotify at 0x7f10>'',
      run = (\<lambda>m r. (r @ [[(''name'', PStr ''spotify''), (''exists'', PBool True)]], None))\<rparr>"
  let ?mods = "[(''holehe.modules.software.github'', [(''github'', ?gh)]),
                (''holehe.modules.music.spotify'', [(''spotify'', ?sp)])]"
  let ?res = "[errored_outcome ''github'' ''github.com'',
               [(''name'', PStr ''spotify''), (''exists'', PBool True)]]"
  have v: "is_valid_email ''user@example.com''" by code_simp
  have g: "get_check_functions ?mods True = [?gh, ?sp]"
    by (simp add: exclude_list_def)
  have n1: "function_name ''<function github at 0x7f00>'' = Inr ''github''"
    by (simp add: function_name_def)
  have n2: "function_name ''<function spotify at 0x7f10>'' = Inr ''spotify''"
    by (simp add: function_name_def)
  have e1: "errored_for ?gh = errored_outcome ''github'' ''github.com''"
    by (simp add: errored_for_def n1 domain_of_def DOMAIN_MAP_def)
  have b: "\<forall>p \<in> set (get_check_functions ?mods True).
             named p \<and> (\<forall>r. one_outcome p ''user@example.com'' r)"
    unfolding g
    by (simp add: named_def n1 n2 one_outcome_def typed_outcome_def dict_get_def)
  note t = raising_probe_yields_one_errored_outcome[where mail = "''user@example.com''"
             and modules = ?mods and exclude_password_recovery = True and w = ?gh
             and results = "[]" and results' = "[]" and e = TimeoutException
             and only_found = True and now = "''t''" and timeout = 15 and sched = "[1]"]
  have l: "launch_module_check ?gh ''user@example.com'' [] = Inr [errored_outcome ''github'' ''github.com'']"
    using t[THEN conjunct1, THEN mp] by (simp add: named_def n1 e1)
  have lt: "\<not> ''spotify'' \<le> ''github''" by code_simp
  have c: "snd (check_email_trio ''user@example.com'' True 15 (Some ?mods) [1]) = Inr ?res"
    using v lt
    by (simp add: check_email_trio_def exclude_list_def pick_def remove_nth_def
          launch_module_check_def n1 domain_of_def DOMAIN_MAP_def sort_by_name_def
          name_key_def dict_get_def errored_outcome_def)
  from t[THEN conjunct2, THEN conjunct2, THEN mp, OF conjI, OF v b]
  obtain res resp where
    r1: "snd (check_email_trio ''user@example.com'' True 15 (Some ?mods) [1]) = Inr res" and
    r2: "length res = length (get_check_functions ?mods True)" and
    r3: "format_results res ''user@example.com'' True ''t'' = Inr resp" and
    r4: "total_checked resp = length (get_check_functions ?mods True)"
    by blast
  have res: "res = ?res" using r1 c by simp
  have f: "format_results ?res ''user@example.com'' True ''t'' =
   Inr \<lparr>success = True, email = ''user@example.com'', total_checked = 2, found_count = 1,
        platforms_found = [''unknown''], detailed_results = None, checked_at = ''t''\<rparr>"
    by (simp add: format_results_def errored_outcome_def dict_get_def found_info_def
          make_PlatformInfo_def)
  show ?thesis using v g l c f r2 r3 r4 res by simp
qed

text \<open>
  C5, as the code has it. Resolution in the username path is the lookup of the site
  database and nothing more: \<open>_load_sites\<close> checks no name against the catalog, and
  the only failures of \<open>maigret_search_username\<close> are those of the lookup and of the
  search. Whenever the lookup returns sites, whatever names were asked for, the search
  runs on them and the aggregate result is returned.
\<close>

theorem resolution_adds_no_name_check:
  "(maigret_search_username rsd search uname top_sites timeout tgs site_list use_cookies = Inl err \<longleftrightarrow>
      (rsd top_sites (case tgs of None \<Rightarrow> [] | Some t \<Rightarrow> t)
         (case site_list of None \<Rightarrow> [] | Some l \<Rightarrow> l) False ''username'' = Inl err \<or>
       (\<exists>sites.
          rsd top_sites (case tgs of None \<Rightarrow> [] | Some t \<Rightarrow> t)
            (case site_list of None \<Rightarrow> [] | Some l \<Rightarrow> l) False ''username'' = Inr sites \<and>
          search uname sites timeout (if use_cookies then Some ''cookies.txt'' else None) = Inl err))) \<and>
   (rsd top_sites (case tgs of None \<Rightarrow> [] | Some t \<Rightarrow> t)
      (case site_list of None \<Rightarrow> [] | Some l \<Rightarrow> l) False ''username'' = Inr sites' \<and>
    search uname sites' timeout (if use_cookies then Some ''cookies.txt'' else None) = Inr raw \<longrightarrow>
      load_sites rsd top_sites tgs site_list = Inr sites' \<and>
      (\<exists>u. maigret_search_username rsd search uname top_sites timeout tgs site_list use_cookies = Inr u \<and>
           total_sites_checked u = length raw))"
proof (intro conjI impI)
  show "maigret_search_username rsd search uname top_sites timeout tgs site_list use_cookies = Inl err \<longleftrightarrow>
      (rsd top_sites (case tgs of None \<Rightarrow> [] | Some t \<Rightarrow> t)
         (case site_list of None \<Rightarrow> [] | Some l \<Rightarrow> l) False ''username'' = Inl err \<or>
       (\<exists>sites.
          rsd top_sites (case tgs of None \<Rightarrow> [] | Some t \<Rightarrow> t)
            (case site_list of None \<Rightarrow> [] | Some l \<Rightarrow> l) False ''username'' = Inr sites \<and>
          search uname sites timeout (if use_cookies then Some ''cookies.txt'' else None) = Inl err))"
    by (auto simp: maigret_search_username_def load_sites_def split: sum.splits prod.splits)
next
  assume a: "rsd top_sites (case tgs of None \<Rightarrow> [] | Some t \<Rightarrow> t)
      (case site_list of None \<Rightarrow> [] | Some l \<Rightarrow> l) False ''username'' = Inr sites' \<and>
    search uname sites' timeout (if use_cookies then Some ''cookies.txt'' else None) = Inr raw"
  then show ls: "load_sites rsd top_sites tgs site_list = Inr sites'"
    by (simp add: load_sites_def)
  from maigret_search_username_run[OF ls] a
  show "\<exists>u. maigret_search_username rsd search uname top_sites timeout tgs site_list use_cookies = Inr u \<and>
           total_sites_checked u = length raw"
    by simp
qed

theorem unknown_site_name_no_error_counterexample:
  "load_sites
     (\<lambda>top_sites tgs names disabled id_type.
        Inr (filter (\<lambda>s. s \<in> set names) [''GitHub'', ''Reddit'']))
     200 None (Some [''GitHub'', ''NoSuchSite'']) = Inr [''GitHub''] \<and>
   maigret_search_username
     (\<lambda>top_sites tgs names disabled id_type.
        Inr (filter (\<lambda>s. s \<in> set names) [''GitHub'', ''Reddit'']))
     (\<lambda>uname sites timeout cookies.
        Inr (map (\<lambda>s. (s, \<lparr>raw_status = None, raw_url_main = PNone, raw_url_user = PNone,
                            raw_category = PNone\<rparr>)) sites))
     ''alice'' 200 30 None (Some [''GitHub'', ''NoSuchSite'']) False =
   Inr \<lparr>username = ''alice'', sites_found = [],
        sites_not_found =
          [\<lparr>site = ''GitHub'', url_main = PNone, url_user = PNone, category = PNone,
            status = AttrNone, tags = []\<rparr>],
        total_sites_checked = 1\<rparr>"
  by (simp add: maigret_search_username_def load_sites_def is_claimed_def status_str_of_def
        make_entry_def tags_list_of_def)

theorem resolution_adds_no_name_check_witness:
  "load_sites
     (\<lambda>top_sites tgs names disabled id_type.
        Inr (filter (\<lambda>s. s \<in> set names) [''GitHub'', ''Reddit'']))
     200 None (Some [''Reddit'', ''Nowhere'']) = Inr [''Reddit''] \<and>
   total_sites_checked
     \<lparr>username = ''bob'', sites_found = [],
      sites_not_found =
        [\<lparr>site = ''Reddit'', url_main = PNone, url_user = PNone, category = PNone,
          status = AttrNone, tags = []\<rparr>],
      total_sites_checked = 1\<rparr> = 1 \<and>
   maigret_search_username
     (\<lambda>top_sites tgs names disabled id_type.
        Inr (filter (\<lambda>s. s \<in> set names) [''GitHub'', ''Reddit'']))
     (\<lambda>uname sites timeout cookies.
        Inr (map (\<lambda>s. (s, \<lparr>raw_status = None, raw_url_main = PNone, raw_url_user = PNone,
                            raw_category = PNone\<rparr>)) sites))
     ''bob'' 200 30 None (Some [''Reddit'', ''Nowhere'']) False =
   Inr \<lparr>username = ''bob'', sites_found = [],
        sites_not_found =
          [\<lparr>site = ''Reddit'', url_main = PNone, url_user = PNone, category = PNone,
            status = AttrNone, tags = []\<rparr>],
        total_sites_checked = 1\<rparr>"
proof -
  let ?rsd = "\<lambda>(top_sites::int) (tgs::string list) names (disabled::bool) (id_type::string).
        (Inr (filter (\<lambda>s. s \<in> set names) [''GitHub'', ''Reddit'']) :: error + string list)"
  let ?search = "\<lambda>(uname::string) sites (timeout::int) (cookies::string option).
        (Inr (map (\<lambda>s. (s, \<lparr>raw_status = None, raw_url_main = PNone, raw_url_user = PNone,
                            raw_category = PNone\<rparr>)) sites) :: error + (string \<times> site_data) list)"
  have h: "?rsd 200 (case None of None \<Rightarrow> [] | Some t \<Rightarrow> t)
             (case Some [''Reddit'', ''Nowhere''] of None \<Rightarrow> [] | Some l \<Rightarrow> l) False ''username'' =
             Inr [''Reddit''] \<and>
           ?search ''bob'' [''Reddit''] 30 (if False then Some ''cookies.txt'' else None) =
             Inr [(''Reddit'', \<lparr>raw_status = None, raw_url_main = PNone, raw_url_user = PNone,
                            raw_category = PNone\<rparr>)]"
    by simp
  note t = resolution_adds_no_name_check[where rsd = ?rsd and search = ?search
             and top_sites = 200 and tgs = None and site_list = "Some [''Reddit'', ''Nowhere'']"
             and use_cookies = False and uname = "''bob''" and timeout = 30
             and sites' = "[''Reddit'']", THEN conjunct2, THEN mp, OF h]
  from t obtain u where
    "maigret_search_username ?rsd ?search ''bob'' 200 30 None (Some [''Reddit'', ''Nowhere'']) False = Inr u"
    and "total_sites_checked u = 1"
    by auto
  moreover have "maigret_search_username ?rsd ?search ''bob'' 200 30 None
                   (Some [''Reddit'', ''Nowhere'']) False =
    Inr \<lparr>username = ''bob'', sites_found = [],
        sites_not_found =
          [\<lparr>site = ''Reddit'', url_main = PNone, url_user = PNone, category = PNone,
            status = AttrNone, tags = []\<rparr>],
        total_sites_checked = 1\<rparr>"
    by (simp add: maigret_search_username_def load_sites_def is_claimed_def status_str_of_def
          make_entry_def tags_list_of_def)
  ultimately show ?thesis using t by simp
qed

text \<open>
  C6, as the code has it. In found-only mode the detailed list is absent from the
  response (\<open>None\<close>, not an empty list), while \<open>total_checked\<close> is computed once as
  the number of raw outcomes and keeps that value though the list is omitted; the
  formatter returns whenever the raw outcomes are typed. The number of raw outcomes is
  the number of resolved probes when each probe, run for the identity of the batch,
  adds one outcome: it raises and leaves the list as it was, or returns after it
  appended one typed outcome. A probe that appends and then raises is counted twice,
  one that returns without appending is not counted.
\<close>

theorem found_only_omits_details:
  "(format_results raw mail True now = Inr r \<longrightarrow>
      detailed_results r = None \<and> detailed_results r \<noteq> Some [] \<and>
      total_checked r = length raw \<and>
      found_count r = length (filter exists_true raw)) \<and>
   (list_all typed_outcome raw \<longrightarrow> (\<exists>r'. format_results raw mail True now = Inr r')) \<and>
   (is_valid_email mail \<and>
    (\<forall>p \<in> set (get_check_functions modules exclude_password_recovery).
       named p \<and> (\<forall>l. one_outcome p mail l)) \<longrightarrow>
      (\<exists>res resp.
         snd (check_email_trio mail exclude_password_recovery timeout (Some modules) sched) = Inr res \<and>
         format_results res mail True now = Inr resp \<and>
         detailed_results resp = None \<and>
         total_checked resp = length (get_check_functions modules exclude_password_recovery)))"
proof (intro conjI impI)
  assume a: "format_results raw mail True now = Inr r"
  show n: "detailed_results r = None" using format_results_Inr(4)[OF a] by simp
  show "detailed_results r \<noteq> Some []" using n by simp
  show "total_checked r = length raw" by (rule format_results_Inr(1)[OF a])
  show "found_count r = length (filter exists_true raw)" by (rule format_results_Inr(3)[OF a])
next
  assume "list_all typed_outcome raw"
  then show "\<exists>r'. format_results raw mail True now = Inr r'" by (rule format_results_typed)
next
  assume a: "is_valid_email mail \<and>
    (\<forall>p \<in> set (get_check_functions modules exclude_password_recovery).
       named p \<and> (\<forall>l. one_outcome p mail l))"
  then have v: "is_valid_email mail"
    and b: "\<forall>p \<in> set (get_check_functions modules exclude_password_recovery).
              named p \<and> (\<forall>l. one_outcome p mail l)"
    by simp_all
  from check_email_trio_one_outcome[OF v b, of timeout sched True now] obtain res resp where
    c: "snd (check_email_trio mail exclude_password_recovery timeout (Some modules) sched) = Inr res"
    and f: "format_results res mail True now = Inr resp"
    and tc: "total_checked resp = length (get_check_functions modules exclude_password_recovery)"
    by (elim exE conjE)
  have "detailed_results resp = None" using format_results_Inr(4)[OF f] by simp
  with c f tc
  show "\<exists>res resp.
         snd (check_email_trio mail exclude_password_recovery timeout (Some modules) sched) = Inr res \<and>
         format_results res mail True now = Inr resp \<and>
         detailed_results resp = None \<and>
         total_checked resp = length (get_check_functions modules exclude_password_recovery)"
    by (intro exI conjI)
qed

theorem total_checked_not_probe_count_counterexample:
  "length (get_check_functions
     [(''holehe.modules.software.github'',
       [(''github'',
         \<lparr>repr = ''<function github at 0x7f00>'',
          run = (\<lambda>m r. (r @ [[(''name'', PStr ''github''), (''domain'', PStr ''github.com''),
                                (''exists'', PBool True)]],
                          Some (OtherException ''boom'')))\<rparr>)])]
     True) = 1 \<and>
   snd (check_email_trio ''user@example.com'' True 15
     (Some [(''holehe.modules.software.github'',
       [(''github'',
         \<lparr>repr = ''<function github at 0x7f00>'',
          run = (\<lambda>m r. (r @ [[(''name'', PStr ''github''), (''domain'', PStr ''github.com''),
                                (''exists'', PBool True)]],
                          Some (OtherException ''boom'')))\<rparr>)])])
     []) =
   Inr [[(''name'', PStr ''github''), (''domain'', PStr ''github.com''), (''exists'', PBool True)],
        [(''name'', PStr ''github''), (''domain'', PStr ''github.com''),
         (''rateLimit'', PBool False), (''error'', PBool True), (''exists'', PBool False),
         (''emailrecovery'', PNone), (''phoneNumber'', PNone), (''others'', PNone)]] \<and>
   format_results
     [[(''name'', PStr ''github''), (''domain'', PStr ''github.com''), (''exists'', PBool True)],
      [(''name'', PStr ''github''), (''domain'', PStr ''github.com''),
       (''rateLimit'', PBool False), (''error'', PBool True), (''exists'', PBool False),
       (''emailrecovery'', PNone), (''phoneNumber'', PNone), (''others'', PNone)]]
     ''user@example.com'' True ''t'' =
   Inr \<lparr>success = True, email = ''user@example.com'', total_checked = 2, found_count = 1,
        platforms_found = [''github.com''], detailed_results = None, checked_at = ''t''\<rparr> \<and>
   length (get_check_functions
     [(''holehe.modules.music.spotify'',
       [(''spotify'', \<lparr>repr = ''<function spotify at 0x7f10>'', run = (\<lambda>m r. (r, None))\<rparr>)])]
     True) = 1 \<and>
   snd (check_email_trio ''user@example.com'' True 15
     (Some [(''holehe.modules.music.spotify'',
       [(''spotify'', \<lparr>repr = ''<function spotify at 0x7f10>'', run = (\<lambda>m r. (r, None))\<rparr>)])])
     []) = Inr [] \<and>
   format_results [] ''user@example.com'' True ''t'' =
   Inr \<lparr>success = True, email = ''user@example.com'', total_checked = 0, found_count = 0,
        platforms_found = [], detailed_results = None, checked_at = ''t''\<rparr>"
proof -
  have v: "is_valid_email ''user@example.com''" by code_simp
  have n: "function_name ''<function github at 0x7f00>'' = Inr ''github''"
    by (simp add: function_name_def)
  show ?thesis
    using v
    by (simp add: check_email_trio_def exclude_list_def pick_def remove_nth_def
          launch_module_check_def n domain_of_def DOMAIN_MAP_def sort_by_name_def
          name_key_def dict_get_def errored_outcome_def format_results_def found_info_def
          make_PlatformInfo_def)
qed

theorem found_only_omits_details_witness:
  "format_results
     [errored_outcome ''github'' ''github.com'',
      [(''name'', PStr ''spotify''), (''domain'', PStr ''spotify.com''), (''exists'', PBool True)]]
     ''user@example.com'' True ''t'' =
   Inr \<lparr>success = True, email = ''user@example.com'', total_checked = 2, found_count = 1,
        platforms_found = [''spotify.com''], detailed_results = None, checked_at = ''t''\<rparr> \<and>
   detailed_results \<lparr>success = True, email = ''user@example.com'', total_checked = 2,
        found_count = 1, platforms_found = [''spotify.com''], detailed_results = None,
        checked_at = ''t''\<rparr> \<noteq> Some [] \<and>
   list_all typed_outcome
     [errored_outcome ''github'' ''github.com'',
      [(''name'', PStr ''spotify''), (''domain'', PStr ''spotify.com''), (''exists'', PBool True)]] \<and>
   is_valid_email ''user@example.com'' \<and>
   snd (check_email_trio ''user@example.com'' True 15
     (Some [(''holehe.modules.software.github'',
             [(''github'', \<lparr>repr = ''<function github at 0x7f00>'',
                            run = (\<lambda>m r. (r, Some TimeoutException))\<rparr>)]),
            (''holehe.modules.music.spotify'',
             [(''spotify'',
               \<lparr>repr = ''<function spotify at 0x7f10>'',
                run = (\<lambda>m r. (r @ [[(''name'', PStr ''spotify''), (''domain'', PStr ''spotify.com''),
                                      (''exists'', PBool True)]], None))\<rparr>)])])
     [1]) =
   Inr [errored_outcome ''github'' ''github.com'',
        [(''name'', PStr ''spotify''), (''domain'', PStr ''spotify.com''), (''exists'', PBool True)]]"
proof -
  let ?so = "[(''name'', PStr ''spotify''), (''domain'', PStr ''spotify.com''), (''exists'', PBool True)]"
  let ?raw = "[errored_outcome ''github'' ''github.com'', ?so]"
  let ?r = "\<lparr>success = True, email = ''user@example.com'', total_checked = 2, found_count = 1,
        platforms_found = [''spotify.com''], detailed_results = None, checked_at = ''t''\<rparr>"
  let ?gh = "\<lparr>repr = ''<function github at 0x7f00>'', run = (\<lambda>m r. (r, Some TimeoutException))\<rparr>"
  let ?sp = "\<lparr>repr = ''<function spotify at 0x7f10>'', run = (\<lambda>m r. (r @ [?so], None))\<rparr>"
  let ?mods = "[(''holehe.modules.software.github'', [(''github'', ?gh)]),
                (''holehe.modules.music.spotify'', [(''spotify'', ?sp)])]"
  have run: "format_results ?raw ''user@example.com'' True ''t'' = Inr ?r"
    by (simp add: format_results_def errored_outcome_def dict_get_def found_info_def
          make_PlatformInfo_def)
  have typed: "list_all typed_outcome ?raw"
    by (simp add: typed_outcome_def errored_outcome_def dict_get_def)
  have v: "is_valid_email ''user@example.com''" by code_simp
  have g: "get_check_functions ?mods True = [?gh, ?sp]" by (simp add: exclude_list_def)
  have n1: "function_name ''<function github at 0x7f00>'' = Inr ''github''"
    by (simp add: function_name_def)
  have n2: "function_name ''<function spotify at 0x7f10>'' = Inr ''spotify''"
    by (simp add: function_name_def)
  have b: "\<forall>p \<in> set (get_check_functions ?mods True).
             named p \<and> (\<forall>l. one_outcome p ''user@example.com'' l)"
    unfolding g
    by (simp add: named_def n1 n2 one_outcome_def typed_outcome_def dict_get_def)
  have lt: "\<not> ''spotify'' \<le> ''github''" by code_simp
  have c: "snd (check_email_trio ''user@example.com'' True 15 (Some ?mods) [1]) = Inr ?raw"
    using v lt
    by (simp add: check_email_trio_def exclude_list_def pick_def remove_nth_def
          launch_module_check_def n1 domain_of_def DOMAIN_MAP_def sort_by_name_def
          name_key_def dict_get_def errored_outcome_def)
  note t = found_only_omits_details[where raw = ?raw and mail = "''user@example.com''"
             and now = "''t''" and r = ?r and modules = ?mods
             and exclude_password_recovery = True and timeout = 15 and sched = "[1]"]
  from t[THEN conjunct2, THEN conjunct2, THEN mp, OF conjI, OF v b]
  obtain res resp where
    r1: "snd (check_email_trio ''user@example.com'' True 15 (Some ?mods) [1]) = Inr res" and
    r2: "format_results res ''user@example.com'' True ''t'' = Inr resp" and
    r3: "total_checked resp = length (get_check_functions ?mods True)"
    by (elim exE conjE)
  have "res = ?raw" using r1 c by simp
  with r2 run have "resp = ?r" by simp
  with r3 g have "total_checked ?r = 2" by simp
  then show ?thesis using run typed v c t[THEN conjunct1] by simp
qed

text \<open>
  C7: an identity that does not match the email format makes \<open>check_email_trio\<close>
  raise \<open>ValueError\<close> with nothing done but the validation: no import, no probe
  started, no outcome. In every run the validation is the first thing done and is done
  once.
\<close>

theorem invalid_email_rejected_first:
  "(\<not> is_valid_email mail \<longrightarrow>
      check_email_trio mail exclude_password_recovery timeout imported sched =
        ([Validated mail], Inl (ValueError (''Invalid email format: '' @ mail)))) \<and>
   (\<exists>rest. fst (check_email_trio mail exclude_password_recovery timeout imported sched) =
             Validated mail # rest \<and>
           length (filter (\<lambda>ev. case ev of Validated m \<Rightarrow> True | _ \<Rightarrow> False) rest) = 0)"
proof (intro conjI impI)
  assume "\<not> is_valid_email mail"
  then show "check_email_trio mail exclude_password_recovery timeout imported sched =
        ([Validated mail], Inl (ValueError (''Invalid email format: '' @ mail)))"
    by (simp add: check_email_trio_def)
next
  have nolaunch: "\<And>ws. filter (\<lambda>ev. case ev of Validated m \<Rightarrow> True | _ \<Rightarrow> False)
                      (map (\<lambda>w. Launched (repr w)) ws) = []"
    by (simp add: filter_empty_conv)
  show "\<exists>rest. fst (check_email_trio mail exclude_password_recovery timeout imported sched) =
             Validated mail # rest \<and>
           length (filter (\<lambda>ev. case ev of Validated m \<Rightarrow> True | _ \<Rightarrow> False) rest) = 0"
    by (cases imported)
       (auto simp: check_email_trio_def Let_def nolaunch split: sum.splits)
qed

theorem invalid_email_rejected_first_witness:
  "\<not> is_valid_email ''not-an-email'' \<and>
   check_email_trio ''not-an-email'' True 15 None [] =
     ([Validated ''not-an-email''], Inl (ValueError ''Invalid email format: not-an-email''))"
proof -
  have h: "\<not> is_valid_email ''not-an-email''" by code_simp
  show ?thesis
    using h invalid_email_rejected_first[of "''not-an-email''" True 15 None "[]",
                THEN conjunct1, THEN mp, OF h]
    by simp
qed

text \<open>
  C8: in the username path a site goes to \<open>sites_found\<close> exactly when its status,
  as a lowercased string, is \<open>claimed\<close> or \<open>found\<close>, and to \<open>sites_not_found\<close>
  otherwise, a site without a status among them; in the email path an outcome is among
  the platforms found exactly when its \<open>exists\<close> field is true in a test.
\<close>

theorem partition_by_status_and_exists:
  "(maigret_search_username rsd search uname top_sites timeout tgs site_list use_cookies = Inr r \<longrightarrow>
      (\<exists>sites raw.
         load_sites rsd top_sites tgs site_list = Inr sites \<and>
         search uname sites timeout (if use_cookies then Some ''cookies.txt'' else None) = Inr raw \<and>
         sites_found r = map entry_of (filter site_claimed raw) \<and>
         sites_not_found r = map entry_of (filter (\<lambda>p. \<not> site_claimed p) raw))) \<and>
   (site_claimed (site_name, sd) \<longleftrightarrow>
      py_lower (attr_str (status_str_of sd)) \<in> {''claimed'', ''found''}) \<and>
   (raw_status sd = None \<longrightarrow> \<not> site_claimed (site_name, sd)) \<and>
   (format_results raw_results mail only_found now = Inr resp \<longrightarrow>
      platforms_found resp = map domain_str (filter exists_true raw_results) \<and>
      (\<not> only_found \<longrightarrow>
         (\<exists>dr. detailed_results resp = Some dr \<and> map exists dr = map exists_true raw_results)))"
proof (intro conjI impI)
  assume a: "maigret_search_username rsd search uname top_sites timeout tgs site_list use_cookies = Inr r"
  from maigret_search_username_Inr[OF a]
  show "\<exists>sites raw.
         load_sites rsd top_sites tgs site_list = Inr sites \<and>
         search uname sites timeout (if use_cookies then Some ''cookies.txt'' else None) = Inr raw \<and>
         sites_found r = map entry_of (filter site_claimed raw) \<and>
         sites_not_found r = map entry_of (filter (\<lambda>p. \<not> site_claimed p) raw)"
    by auto
next
  show "site_claimed (site_name, sd) \<longleftrightarrow>
      py_lower (attr_str (status_str_of sd)) \<in> {''claimed'', ''found''}"
    by (simp add: site_claimed_def is_claimed_iff)
next
  assume "raw_status sd = None"
  then show "\<not> site_claimed (site_name, sd)"
    by (simp add: site_claimed_def status_str_of_def is_claimed_def)
next
  assume a: "format_results raw_results mail only_found now = Inr resp"
  show "platforms_found resp = map domain_str (filter exists_true raw_results)"
    by (rule format_results_Inr(2)[OF a])
next
  assume a: "format_results raw_results mail only_found now = Inr resp" and n: "\<not> only_found"
  from format_results_Inr(5)[OF a n]
  show "\<exists>dr. detailed_results resp = Some dr \<and> map exists dr = map exists_true raw_results"
    by auto
qed

theorem partition_by_status_and_exists_witness:
  "maigret_search_username
     (\<lambda>top_sites tgs names disabled id_type. Inr [''GitHub'', ''Reddit'', ''Gone''])
     (\<lambda>uname sites timeout cookies.
        Inr [(''GitHub'',
              \<lparr>raw_status = Some \<lparr>status_attr = AttrEnum ''Claimed'', tags_attr = Some [''coding'']\<rparr>,
               raw_url_main = PStr ''https://github.com'', raw_url_user = PNone,
               raw_category = PNone\<rparr>),
             (''Reddit'',
              \<lparr>raw_status = Some \<lparr>status_attr = AttrEnum ''Available'', tags_attr = None\<rparr>,
               raw_url_main = PNone, raw_url_user = PNone, raw_category = PNone\<rparr>),
             (''Gone'',
              \<lparr>raw_status = None, raw_url_main = PNone, raw_url_user = PNone,
               raw_category = PNone\<rparr>)])
     ''alice'' 200 30 None None False =
   Inr \<lparr>username = ''alice'',
        sites_found =
          [\<lparr>site = ''GitHub'', url_main = PStr ''https://github.com'', url_user = PNone,
            category = PNone, status = AttrEnum ''Claimed'', tags = [''coding'']\<rparr>],
        sites_not_found =
          [\<lparr>site = ''Reddit'', url_main = PNone, url_user = PNone, category = PNone,
            status = AttrEnum ''Available'', tags = []\<rparr>,
           \<lparr>site = ''Gone'', url_main = PNone, url_user = PNone, category = PNone,
            status = AttrNone, tags = []\<rparr>],
        total_sites_checked = 3\<rparr> \<and>
   site_claimed (''GitHub'',
      \<lparr>raw_status = Some \<lparr>status_attr = AttrEnum ''Claimed'', tags_attr = Some [''coding'']\<rparr>,
       raw_url_main = PStr ''https://github.com'', raw_url_user = PNone, raw_category = PNone\<rparr>) \<and>
   py_lower ''Claimed'' = ''claimed'' \<and>
   \<not> site_claimed (''Gone'',
      \<lparr>raw_status = None, raw_url_main = PNone, raw_url_user = PNone, raw_category = PNone\<rparr>) \<and>
   format_results
     [[(''name'', PStr ''github''), (''domain'', PStr ''github.com''), (''exists'', PInt 1)],
      [(''name'', PStr ''reddit''), (''domain'', PStr ''reddit.com''), (''exists'', PNone)]]
     ''user@example.com'' False ''t'' =
   Inr \<lparr>success = True, email = ''user@example.com'', total_checked = 2, found_count = 1,
        platforms_found = [''github.com''],
        detailed_results =
          Some [\<lparr>platform = ''github.com'', name = ''github'', exists = True,
                  email_recovery = None, phone_number = None, additional_info = None\<rparr>,
                \<lparr>platform = ''reddit.com'', name = ''reddit'', exists = False,
                  email_recovery = None, phone_number = None, additional_info = None\<rparr>],
        checked_at = ''t''\<rparr>"
proof -
  let ?gh = "\<lparr>raw_status = Some \<lparr>status_attr = AttrEnum ''Claimed'', tags_attr = Some [''coding'']\<rparr>,
               raw_url_main = PStr ''https://github.com'', raw_url_user = PNone,
               raw_category = PNone\<rparr>"
  let ?gone = "\<lparr>raw_status = None, raw_url_main = PNone, raw_url_user = PNone,
               raw_category = PNone\<rparr>"
  have l1: "py_lower ''Claimed'' = ''claimed''" by code_simp
  have l2: "py_lower ''Available'' = ''available''" by code_simp
  have l3: "py_lower ''None'' = ''none''" by code_simp
  have u: "maigret_search_username
     (\<lambda>top_sites tgs names disabled id_type. Inr [''GitHub'', ''Reddit'', ''Gone''])
     (\<lambda>uname sites timeout cookies.
        Inr [(''GitHub'', ?gh),
             (''Reddit'',
              \<lparr>raw_status = Some \<lparr>status_attr = AttrEnum ''Available'', tags_attr = None\<rparr>,
               raw_url_main = PNone, raw_url_user = PNone, raw_category = PNone\<rparr>),
             (''Gone'', ?gone)])
     ''alice'' 200 30 None None False =
   Inr \<lparr>username = ''alice'',
        sites_found =
          [\<lparr>site = ''GitHub'', url_main = PStr ''https://github.com'', url_user = PNone,
            category = PNone, status = AttrEnum ''Claimed'', tags = [''coding'']\<rparr>],
        sites_not_found =
          [\<lparr>site = ''Reddit'', url_main = PNone, url_user = PNone, category = PNone,
            status = AttrEnum ''Available'', tags = []\<rparr>,
           \<lparr>site = ''Gone'', url_main = PNone, url_user = PNone, category = PNone,
            status = AttrNone, tags = []\<rparr>],
        total_sites_checked = 3\<rparr>"
    by (simp add: maigret_search_username_def load_sites_def is_claimed_def status_str_of_def
          make_entry_def tags_list_of_def l1 l2 l3)
  have f: "format_results
     [[(''name'', PStr ''github''), (''domain'', PStr ''github.com''), (''exists'', PInt 1)],
      [(''name'', PStr ''reddit''), (''domain'', PStr ''reddit.com''), (''exists'', PNone)]]
     ''user@example.com'' False ''t'' =
   Inr \<lparr>success = True, email = ''user@example.com'', total_checked = 2, found_count = 1,
        platforms_found = [''github.com''],
        detailed_results =
          Some [\<lparr>platform = ''github.com'', name = ''github'', exists = True,
                  email_recovery = None, phone_number = None, additional_info = None\<rparr>,
                \<lparr>platform = ''reddit.com'', name = ''reddit'', exists = False,
                  email_recovery = None, phone_number = None, additional_info = None\<rparr>],
        checked_at = ''t''\<rparr>"
    by (simp add: format_results_def dict_get_def found_info_def not_found_info_def
          make_PlatformInfo_def)
  have g: "raw_status ?gone = None" by simp
  have c: "py_lower (attr_str (status_str_of ?gh)) \<in> {''claimed'', ''found''}"
    by (simp add: status_str_of_def l1)
  note gh = partition_by_status_and_exists[where site_name = "''GitHub''" and sd = ?gh]
  note gone = partition_by_status_and_exists[where site_name = "''Gone''" and sd = ?gone]
  have "site_claimed (''GitHub'', ?gh)"
    using gh[THEN conjunct2, THEN conjunct1] c by (rule iffD2)
  moreover have "\<not> site_claimed (''Gone'', ?gone)"
    using gone[THEN conjunct2, THEN conjunct2, THEN conjunct1] g by (rule mp)
  ultimately show ?thesis using u f l1 by simp
qed

text \<open>
  C9: when no probe is selected the batch is valid and empty. In the email path
  \<open>check_email_trio\<close> returns the empty list and \<open>format_results\<close> gives
  \<open>total_checked = 0\<close> with empty lists; in the username path an empty search result
  gives \<open>total_sites_checked = 0\<close> with empty lists. No error is raised.
\<close>

theorem empty_probe_set_is_valid_batch:
  "(is_valid_email mail \<and> get_check_functions modules exclude_password_recovery = [] \<longrightarrow>
      check_email_trio mail exclude_password_recovery timeout (Some modules) sched =
        ([Validated mail, ImportModules], Inr [])) \<and>
   format_results [] mail False now =
     Inr \<lparr>success = True, email = mail, total_checked = 0, found_count = 0,
          platforms_found = [], detailed_results = Some [], checked_at = now\<rparr> \<and>
   (load_sites rsd top_sites tgs site_list = Inr sites \<and>
    search uname sites timeout2 (if use_cookies then Some ''cookies.txt'' else None) = Inr [] \<longrightarrow>
      maigret_search_username rsd search uname top_sites timeout2 tgs site_list use_cookies =
        Inr \<lparr>username = uname, sites_found = [], sites_not_found = [],
             total_sites_checked = 0\<rparr>)"
proof (intro conjI impI)
  assume "is_valid_email mail \<and> get_check_functions modules exclude_password_recovery = []"
  then show "check_email_trio mail exclude_password_recovery timeout (Some modules) sched =
        ([Validated mail, ImportModules], Inr [])"
    by (simp add: check_email_trio_def sort_by_name_def)
next
  show "format_results [] mail False now =
     Inr \<lparr>success = True, email = mail, total_checked = 0, found_count = 0,
          platforms_found = [], detailed_results = Some [], checked_at = now\<rparr>"
    by (simp add: format_results_def)
next
  assume "load_sites rsd top_sites tgs site_list = Inr sites \<and>
    search uname sites timeout2 (if use_cookies then Some ''cookies.txt'' else None) = Inr []"
  then show "maigret_search_username rsd search uname top_sites timeout2 tgs site_list use_cookies =
        Inr \<lparr>username = uname, sites_found = [], sites_not_found = [],
             total_sites_checked = 0\<rparr>"
    using maigret_search_username_run[of rsd top_sites tgs site_list sites search uname timeout2
            use_cookies "[]"]
    by simp
qed

theorem empty_probe_set_is_valid_batch_witness:
  "is_valid_email ''user@example.com'' \<and>
   get_check_functions
     [(''holehe.modules.shopping.adobe'',
       [(''adobe'', \<lparr>repr = ''<function adobe at 0x7f00>'', run = (\<lambda>m r. (r, None))\<rparr>)])] True = [] \<and>
   check_email_trio ''user@example.com'' True 15
     (Some [(''holehe.modules.shopping.adobe'',
       [(''adobe'', \<lparr>repr = ''<function adobe at 0x7f00>'', run = (\<lambda>m r. (r, None))\<rparr>)])]) [] =
     ([Validated ''user@example.com'', ImportModules], Inr []) \<and>
   maigret_search_username
     (\<lambda>top_sites tgs names disabled id_type. Inr ([] :: string list))
     (\<lambda>uname sites timeout cookies. Inr (map (\<lambda>s. (s, \<lparr>raw_status = None, raw_url_main = PNone,
          raw_url_user = PNone, raw_category = PNone\<rparr>)) sites))
     ''alice'' 200 30 (Some [''social'']) None False =
     Inr \<lparr>username = ''alice'', sites_found = [], sites_not_found = [],
          total_sites_checked = 0\<rparr>"
proof -
  let ?mods = "[(''holehe.modules.shopping.adobe'',
       [(''adobe'', \<lparr>repr = ''<function adobe at 0x7f00>'', run = (\<lambda>m r. (r, None))\<rparr>)])]"
  have v: "is_valid_email ''user@example.com''" by code_simp
  have g: "get_check_functions ?mods True = []"
    by (simp add: exclude_list_def)
  have ls: "load_sites (\<lambda>top_sites tgs names disabled id_type. Inr ([] :: string list))
              200 (Some [''social'']) None = Inr []"
    by (simp add: load_sites_def)
  note t = empty_probe_set_is_valid_batch[where mail = "''user@example.com''" and modules = ?mods
             and exclude_password_recovery = True]
  have e: "check_email_trio ''user@example.com'' True 15 (Some ?mods) [] =
             ([Validated ''user@example.com'', ImportModules], Inr [])"
    using t[THEN conjunct1, THEN mp, OF conjI, OF v g] .
  have u: "maigret_search_username
     (\<lambda>top_sites tgs names disabled id_type. Inr ([] :: string list))
     (\<lambda>uname sites timeout cookies. Inr (map (\<lambda>s. (s, \<lparr>raw_status = None, raw_url_main = PNone,
          raw_url_user = PNone, raw_category = PNone\<rparr>)) sites))
     ''alice'' 200 30 (Some [''social'']) None False =
     Inr \<lparr>username = ''alice'', sites_found = [], sites_not_found = [],
          total_sites_checked = 0\<rparr>"
    by (rule empty_probe_set_is_valid_batch[THEN conjunct2, THEN conjunct2, THEN mp])
       (simp add: ls)
  show ?thesis using v g e u by simp
qed

text \<open>
  C10: when a probe raises, the name in the errored outcome is derived from the probe's
  string representation: the token that follows \<open><function \<close> when the
  representation holds it, and \<open>unknown\<close> otherwise. This is for a representation in
  which \<open><function\<close> is followed by a space, as it is in every representation Python
  gives a function, \<open><function NAME at 0x...>\<close>, for which the token is the function's
  name. The recorded domain is the entry of the domain map for the name, and \<open>unknown\<close>
  when the name is none of the 21 mapped ones.
\<close>

theorem derived_name_and_domain:
  "((str_contains ''<function'' (repr w) \<longrightarrow> str_contains ''<function '' (repr w)) \<and>
    run w mail results = (results', Some e) \<longrightarrow>
      launch_module_check w mail results =
        Inr (results' @
          [errored_outcome
             (if str_contains ''<function '' (repr w) then token_after (repr w) else ''unknown'')
             (domain_of
               (if str_contains ''<function '' (repr w) then token_after (repr w)
                else ''unknown''))])) \<and>
   (CHR '' '' \<notin> set nm \<and> \<not> str_contains ''<function '' (nm @ '' at 0x'' @ addr @ ''>'') \<longrightarrow>
      function_name (''<function '' @ nm @ '' at 0x'' @ addr @ ''>'') = Inr nm \<and>
      token_after (''<function '' @ nm @ '' at 0x'' @ addr @ ''>'') = nm) \<and>
   (\<not> str_contains ''<function'' s \<longrightarrow> function_name s = Inr ''unknown'') \<and>
   dict_get (errored_outcome nm' dmn) ''name'' PNone = PStr nm' \<and>
   dict_get (errored_outcome nm' dmn) ''domain'' PNone = PStr dmn \<and>
   length DOMAIN_MAP = 21 \<and> distinct (map fst DOMAIN_MAP) \<and>
   (nm' \<notin> set (map fst DOMAIN_MAP) \<longrightarrow> domain_of nm' = ''unknown'') \<and>
   ((nm', d) \<in> set DOMAIN_MAP \<longrightarrow> domain_of nm' = d)"
proof (intro conjI impI)
  assume a: "(str_contains ''<function'' (repr w) \<longrightarrow> str_contains ''<function '' (repr w)) \<and>
    run w mail results = (results', Some e)"
  let ?nm = "if str_contains ''<function '' (repr w) then token_after (repr w) else ''unknown''"
  from a have f: "function_name (repr w) = Inr ?nm" using function_name_no_gap by blast
  then have n: "named w" by (simp add: named_def)
  from a have r: "run w mail results = (results', Some e)" by simp
  show "launch_module_check w mail results =
          Inr (results' @ [errored_outcome ?nm (domain_of ?nm)])"
    using launch_raises[OF n r] errored_for_fields(1)[OF f] by simp
next
  assume a: "CHR '' '' \<notin> set nm \<and> \<not> str_contains ''<function '' (nm @ '' at 0x'' @ addr @ ''>'')"
  then show f: "function_name (''<function '' @ nm @ '' at 0x'' @ addr @ ''>'') = Inr nm"
    using function_name_of_function by blast
  have c: "str_contains ''<function '' (''<function '' @ nm @ '' at 0x'' @ addr @ ''>'')"
    by (rule str_contains_prefix)
  then have "str_contains ''<function'' (''<function '' @ nm @ '' at 0x'' @ addr @ ''>'') \<longrightarrow>
             str_contains ''<function '' (''<function '' @ nm @ '' at 0x'' @ addr @ ''>'')"
    by blast
  from function_name_no_gap[OF this] f c
  show "token_after (''<function '' @ nm @ '' at 0x'' @ addr @ ''>'') = nm" by simp
next
  assume "\<not> str_contains ''<function'' s"
  then show "function_name s = Inr ''unknown''" by (rule function_name_unknown)
next
  show "dict_get (errored_outcome nm' dmn) ''name'' PNone = PStr nm'"
    by (simp add: errored_outcome_def dict_get_def)
  show "dict_get (errored_outcome nm' dmn) ''domain'' PNone = PStr dmn"
    by (simp add: errored_outcome_def dict_get_def)
  show "length DOMAIN_MAP = 21" using domain_map_size by blast
  show "distinct (map fst DOMAIN_MAP)" using domain_map_size by blast
next
  assume "nm' \<notin> set (map fst DOMAIN_MAP)"
  then show "domain_of nm' = ''unknown''" by (rule domain_of_unmapped)
next
  assume "(nm', d) \<in> set DOMAIN_MAP"
  then show "domain_of nm' = d" by (rule domain_of_mapped)
qed

theorem derived_name_and_domain_witness:
  "str_contains ''<function '' ''<function ebay at 0x7f20>'' \<and>
   token_after ''<function ebay at 0x7f20>'' = ''ebay'' \<and>
   launch_module_check
     \<lparr>repr = ''<function ebay at 0x7f20>'', run = (\<lambda>m r. (r, Some (OtherException ''boom'')))\<rparr>
     ''user@example.com'' [] =
   Inr [errored_outcome ''ebay'' ''unknown''] \<and>
   launch_module_check
     \<lparr>repr = ''<built-in function len>'', run = (\<lambda>m r. (r, Some (OtherException ''boom'')))\<rparr>
     ''user@example.com'' [] =
   Inr [errored_outcome ''unknown'' ''unknown''] \<and>
   function_name ''<function github at 0x7f00>'' = Inr ''github'' \<and>
   domain_of ''github'' = ''github.com'' \<and>
   domain_of ''ebay'' = ''unknown''"
proof -
  let ?eb = "\<lparr>repr = ''<function ebay at 0x7f20>'',
              run = (\<lambda>m r. (r, Some (OtherException ''boom'')))\<rparr>"
  let ?bi = "\<lparr>repr = ''<built-in function len>'',
              run = (\<lambda>m r. (r, Some (OtherException ''boom'')))\<rparr>"
  have c1: "str_contains ''<function '' ''<function ebay at 0x7f20>''" by simp
  have c2: "\<not> str_contains ''<function'' ''<built-in function len>''" by simp
  have c3: "\<not> str_contains ''<function '' ''<built-in function len>''" by simp
  have t1: "token_after ''<function ebay at 0x7f20>'' = ''ebay''"
    by (simp add: token_after_def)
  have um: "''ebay'' \<notin> set (map fst DOMAIN_MAP)" by (simp add: DOMAIN_MAP_def)
  have uk: "''unknown'' \<notin> set (map fst DOMAIN_MAP)" by (simp add: DOMAIN_MAP_def)
  have gm: "(''github'', ''github.com'') \<in> set DOMAIN_MAP" by (simp add: DOMAIN_MAP_def)
  note t = derived_name_and_domain
  have d1: "domain_of ''ebay'' = ''unknown''"
    using t[THEN conjunct2, THEN conjunct2, THEN conjunct2, THEN conjunct2, THEN conjunct2,
            THEN conjunct2, THEN conjunct2, THEN conjunct1, THEN mp, OF um] .
  have d2: "domain_of ''unknown'' = ''unknown''"
    using t[THEN conjunct2, THEN conjunct2, THEN conjunct2, THEN conjunct2, THEN conjunct2,
            THEN conjunct2, THEN conjunct2, THEN conjunct1, THEN mp, OF uk] .
  have d3: "domain_of ''github'' = ''github.com''"
    using t[THEN conjunct2, THEN conjunct2, THEN conjunct2, THEN conjunct2, THEN conjunct2,
            THEN conjunct2, THEN conjunct2, THEN conjunct2, THEN mp, OF gm] .
  have h1: "(str_contains ''<function'' (repr ?eb) \<longrightarrow> str_contains ''<function '' (repr ?eb)) \<and>
            run ?eb ''user@example.com'' [] = ([], Some (OtherException ''boom''))"
    by simp
  have l1: "launch_module_check ?eb ''user@example.com'' [] = Inr [errored_outcome ''ebay'' ''unknown'']"
    using t[THEN conjunct1, THEN mp, OF h1] c1 t1 d1 by simp
  have h2: "(str_contains ''<function'' (repr ?bi) \<longrightarrow> str_contains ''<function '' (repr ?bi)) \<and>
            run ?bi ''user@example.com'' [] = ([], Some (OtherException ''boom''))"
    by simp
  have l2: "launch_module_check ?bi ''user@example.com'' [] =
              Inr [errored_outcome ''unknown'' ''unknown'']"
    using t[THEN conjunct1, THEN mp, OF h2] c3 d2 by simp
  have h3: "CHR '' '' \<notin> set ''github'' \<and>
            \<not> str_contains ''<function '' (''github'' @ '' at 0x'' @ ''7f00'' @ ''>'')"
    by simp
  have f: "function_name ''<function github at 0x7f00>'' = Inr ''github''"
    using t[THEN conjunct2, THEN conjunct1, THEN mp, OF h3] by simp
  show ?thesis using c1 t1 l1 l2 f d1 d3 by simp
qed

end
